theory Spec2Isabelle
  imports Complex_Main "HOL-Library.Word"
begin

section \<open>Numbers\<close>

text \<open>
  The program computes on Go \<^verbatim>\<open>float64\<close> values. The functions below are polymorphic in
  the cell type \<open>'a\<close>, which only has to carry the symbols \<open>0\<close>, \<open>+\<close>, \<open>*\<close> and \<open>/\<close>
  (the syntactic classes \<open>zero\<close>, \<open>plus\<close>, \<open>times\<close>, \<open>inverse\<close>): no algebraic law is
  assumed of them, so a general theorem about these functions holds for every
  interpretation of the arithmetic, IEEE 754 binary64 with its rounding included.

  For concrete runs the type \<open>f64\<close> interprets the symbols: the finite values are carried
  as reals, and the two infinities and NaN follow IEEE 754. Rounding and the sign of zero
  are not modelled, so \<open>f64\<close> agrees with binary64 exactly where every intermediate result is
  representable and no negative zero arises; it is used at such inputs only.
\<close>

datatype f64 = Finite real | PInf | NInf | NaN

fun f64_add :: "f64 \<Rightarrow> f64 \<Rightarrow> f64" where
  "f64_add NaN _ = NaN"
| "f64_add _ NaN = NaN"
| "f64_add PInf NInf = NaN"
| "f64_add NInf PInf = NaN"
| "f64_add PInf _ = PInf"
| "f64_add _ PInf = PInf"
| "f64_add NInf _ = NInf"
| "f64_add _ NInf = NInf"
| "f64_add (Finite a) (Finite b) = Finite (a + b)"

fun f64_neg :: "f64 \<Rightarrow> f64" where
  "f64_neg (Finite a) = Finite (- a)"
| "f64_neg PInf = NInf"
| "f64_neg NInf = PInf"
| "f64_neg NaN = NaN"

text \<open>An infinity times or over a finite value: the sign of the finite value decides.\<close>

definition f64_signed :: "f64 \<Rightarrow> real \<Rightarrow> f64" where
  "f64_signed x a = (if a = 0 then NaN else if 0 < a then x else f64_neg x)"

fun f64_mul :: "f64 \<Rightarrow> f64 \<Rightarrow> f64" where
  "f64_mul NaN _ = NaN"
| "f64_mul _ NaN = NaN"
| "f64_mul (Finite a) (Finite b) = Finite (a * b)"
| "f64_mul (Finite a) PInf = f64_signed PInf a"
| "f64_mul (Finite a) NInf = f64_signed NInf a"
| "f64_mul PInf (Finite b) = f64_signed PInf b"
| "f64_mul NInf (Finite b) = f64_signed NInf b"
| "f64_mul PInf PInf = PInf"
| "f64_mul NInf NInf = PInf"
| "f64_mul PInf NInf = NInf"
| "f64_mul NInf PInf = NInf"

fun f64_div :: "f64 \<Rightarrow> f64 \<Rightarrow> f64" where
  "f64_div NaN _ = NaN"
| "f64_div _ NaN = NaN"
| "f64_div (Finite a) (Finite b) = (if b = 0 then f64_signed PInf a else Finite (a / b))"
| "f64_div (Finite a) PInf = Finite 0"
| "f64_div (Finite a) NInf = Finite 0"
| "f64_div PInf (Finite b) = (if 0 \<le> b then PInf else NInf)"
| "f64_div NInf (Finite b) = (if 0 \<le> b then NInf else PInf)"
| "f64_div PInf PInf = NaN"
| "f64_div PInf NInf = NaN"
| "f64_div NInf PInf = NaN"
| "f64_div NInf NInf = NaN"

fun f64_le :: "f64 \<Rightarrow> f64 \<Rightarrow> bool" where
  "f64_le NaN _ = False"
| "f64_le _ NaN = False"
| "f64_le NInf _ = True"
| "f64_le _ PInf = True"
| "f64_le PInf _ = False"
| "f64_le _ NInf = False"
| "f64_le (Finite a) (Finite b) = (a \<le> b)"

instantiation f64 :: "{zero, plus, times, inverse, ord}"
begin

definition zero_f64 :: f64 where "zero_f64 = Finite 0"
definition plus_f64 :: "f64 \<Rightarrow> f64 \<Rightarrow> f64" where "plus_f64 = f64_add"
definition times_f64 :: "f64 \<Rightarrow> f64 \<Rightarrow> f64" where "times_f64 = f64_mul"
definition divide_f64 :: "f64 \<Rightarrow> f64 \<Rightarrow> f64" where "divide_f64 = f64_div"
definition inverse_f64 :: "f64 \<Rightarrow> f64" where "inverse_f64 x = f64_div (Finite 1) x"
definition less_eq_f64 :: "f64 \<Rightarrow> f64 \<Rightarrow> bool" where "less_eq_f64 = f64_le"
definition less_f64 :: "f64 \<Rightarrow> f64 \<Rightarrow> bool" where
  "less_f64 x y = (f64_le x y \<and> \<not> f64_le y x)"

instance ..

end

text \<open>
  Go's \<^verbatim>\<open>int\<close> is 64 bits wide on the platforms the program runs on; sums of population
  counts wrap around. \<open>float64_of_int\<close> is the conversion \<^verbatim>\<open>float64(n)\<close> into \<open>f64\<close>.
\<close>

type_synonym goint = "64 word"

definition float64_of_int :: "goint \<Rightarrow> f64" where
  "float64_of_int n = Finite (real_of_int (sint n))"

section \<open>Errors\<close>

text \<open>
  A Go function of the program ends in one of three ways: it returns its result, it
  returns an \<^verbatim>\<open>error\<close> value, or a run-time panic aborts it. The error values are those
  the source builds: an external provider's error, passed on as it is or wrapped with
  a context message (\<^verbatim>\<open>errors.Wrap\<close>), and the three \<^verbatim>\<open>fmt.Errorf\<close> messages, kept with
  the two numbers they print. The panics are Go's index check and nil dereference, and
  gonum's refusal of a zero dimension.
\<close>

datatype panic = IndexOutOfRange | NilDereference | ZeroLength

datatype error =
    ProviderError string
  | Wrap string error
  | EmissionsColumns nat nat
  | PopulationLength nat nat
  | EmissionsRows nat nat
  | Panic panic


text \<open>
  \<^verbatim>\<open>errors.Wrap(err, msg)\<close> is applied to a returned error value; a panic is not a value
  and passes the wrapping call sites untouched.
\<close>

fun errors_Wrap :: "error \<Rightarrow> string \<Rightarrow> error" where
  "errors_Wrap (Panic p) msg = Panic p"
| "errors_Wrap err msg = Wrap msg err"

section \<open>Loops\<close>

text \<open>
  A Go \<^verbatim>\<open>for\<close> loop over a slice or an index range, with the variables it mutates as the
  state \<open>'s\<close>: the body runs on each element in order, and the first error or panic ends
  the loop, leaving the state as it was at that moment.
\<close>

fun forEach :: "('x \<Rightarrow> 's \<Rightarrow> error option \<times> 's) \<Rightarrow> 'x list \<Rightarrow> 's \<Rightarrow> error option \<times> 's" where
  "forEach body [] s = (None, s)"
| "forEach body (x # xs) s =
     (case body x s of
        (Some err, s') \<Rightarrow> (Some err, s')
      | (None, s') \<Rightarrow> forEach body xs s')"

section \<open>gonum matrices and vectors\<close>

text \<open>
  \<^verbatim>\<open>mat.Dense\<close> is used through \<^verbatim>\<open>NewDense\<close>, \<^verbatim>\<open>Dims\<close>, \<^verbatim>\<open>At\<close>, \<^verbatim>\<open>Set\<close> and \<^verbatim>\<open>ColView\<close> only:
  a matrix is its two dimensions and its cells by row and column. gonum panics on an
  index outside the dimensions and on a zero dimension in a constructor.
  \<^verbatim>\<open>mat.VecDense\<close> is the list of its entries.
\<close>

record 'a Dense =
  nrows :: nat
  ncols :: nat
  cells :: "nat \<Rightarrow> nat \<Rightarrow> 'a"

definition NewDense :: "nat \<Rightarrow> nat \<Rightarrow> error + ('a::zero) Dense" where
  "NewDense r c =
     (if r = 0 \<or> c = 0 then Inl (Panic ZeroLength)
      else Inr \<lparr>nrows = r, ncols = c, cells = (\<lambda>i j. 0)\<rparr>)"

definition Dense_At :: "'a Dense \<Rightarrow> nat \<Rightarrow> nat \<Rightarrow> error + 'a" where
  "Dense_At M i j =
     (if i < nrows M \<and> j < ncols M then Inr (cells M i j) else Inl (Panic IndexOutOfRange))"

definition Dense_Set :: "'a Dense \<Rightarrow> nat \<Rightarrow> nat \<Rightarrow> 'a \<Rightarrow> error + 'a Dense" where
  "Dense_Set M i j v =
     (if i < nrows M \<and> j < ncols M
      then Inr (M\<lparr>cells := (cells M)(i := (cells M i)(j := v))\<rparr>)
      else Inl (Panic IndexOutOfRange))"

definition ColView :: "'a Dense \<Rightarrow> nat \<Rightarrow> error + 'a list" where
  "ColView M j =
     (if j < ncols M then Inr (map (\<lambda>i. cells M i j) [0..<nrows M])
      else Inl (Panic IndexOutOfRange))"

definition NewVecDense :: "nat \<Rightarrow> 'a list \<Rightarrow> error + 'a list" where
  "NewVecDense n data = (if n = 0 then Inl (Panic ZeroLength) else Inr data)"

definition Vec_At :: "'a list \<Rightarrow> nat \<Rightarrow> error + 'a" where
  "Vec_At v i = (if i < length v then Inr (v ! i) else Inl (Panic IndexOutOfRange))"

text \<open>A matrix from its rows, for writing concrete inputs.\<close>

definition fromRows :: "nat \<Rightarrow> 'a list list \<Rightarrow> 'a Dense" where
  "fromRows c rs = \<lparr>nrows = length rs, ncols = c, cells = (\<lambda>i j. rs ! i ! j)\<rparr>"

section \<open>The server\<close>

text \<open>
  \<^verbatim>\<open>*eieio.Server\<close> belongs to an imported package. The program reads two of its tables
  and queries six of its services, which are fields here: \<open>SCCs\<close> (the sector codes, in
  column order), \<open>IndustryToSCCMap\<close> (indexed by industry, a slice of sector indices),
  and the services as functions of the request fields the program sets. A service answers
  with its data or with an error. \<open>EmissionsMatrix\<close> stands for the service followed by
  the conversion \<^verbatim>\<open>rpc2mat\<close>, which is not defined in the repository's files.
  \<open>Concentrations\<close> keeps both results of the call, because the program reads the vector
  before it looks at the error. Years are \<^verbatim>\<open>int32\<close>; a location is a protobuf enum value.
\<close>

type_synonym year = "32 word"
type_synonym Location = "32 word"

record ('d, 'a) Server =
  SCCs :: "string list"
  IndustryToSCCMap :: "int list list"
  DemographicConsumption :: "year \<Rightarrow> 'd \<Rightarrow> error + 'a list"
  EmissionsMatrix :: "'a list \<Rightarrow> year \<Rightarrow> Location \<Rightarrow> error + 'a Dense"
  TotalPopulationCount :: "'d \<Rightarrow> year \<Rightarrow> error + goint"
  Concentrations :: "'a list \<Rightarrow> year \<Rightarrow> Location \<Rightarrow> 'a list option \<times> error option"
  Populations :: "error + string list"
  PopulationIncidence :: "year \<Rightarrow> string \<Rightarrow> error + 'a list"

section \<open>getConsumptionBySCC\<close>

text \<open>
  The two nested loops of \<^verbatim>\<open>getConsumptionBySCC\<close>: for every industry of the consumption
  vector, its consumption is added to each sector the map lists for it. Both index
  expressions are checked by Go: the industry index against the map, the sector index
  against the result slice.
\<close>

definition addToSCC :: "('a::plus) \<Rightarrow> int \<Rightarrow> 'a list \<Rightarrow> error option \<times> 'a list" where
  "addToSCC consumption sccIdx consumptionBySCC =
     (if 0 \<le> sccIdx \<and> sccIdx < int (length consumptionBySCC)
      then (None, consumptionBySCC[nat sccIdx := consumptionBySCC ! nat sccIdx + consumption])
      else (Some (Panic IndexOutOfRange), consumptionBySCC))"

definition addIndustry ::
  "int list list \<Rightarrow> nat \<times> ('a::plus) \<Rightarrow> 'a list \<Rightarrow> error option \<times> 'a list" where
  "addIndustry industryToSCCMap = (\<lambda>(industryIdx, consumption) consumptionBySCC.
     if industryIdx < length industryToSCCMap
     then forEach (addToSCC consumption) (industryToSCCMap ! industryIdx) consumptionBySCC
     else (Some (Panic IndexOutOfRange), consumptionBySCC))"

definition aggregateBySCC ::
  "int list list \<Rightarrow> nat \<Rightarrow> ('a::{zero,plus}) list \<Rightarrow> error option \<times> 'a list" where
  "aggregateBySCC industryToSCCMap numSCCs data =
     forEach (addIndustry industryToSCCMap) (enumerate 0 data) (replicate numSCCs 0)"

definition getConsumptionBySCC ::
  "('d, 'a::{zero,plus}) Server \<Rightarrow> 'd \<Rightarrow> year \<Rightarrow> error + 'a list" where
  "getConsumptionBySCC s dem yr =
     (case DemographicConsumption s yr dem of
        Inl err \<Rightarrow> Inl (errors_Wrap err ''error calculating demographic consumption'')
      | Inr data \<Rightarrow>
          (case aggregateBySCC (IndustryToSCCMap s) (length (SCCs s)) data of
             (Some err, _) \<Rightarrow> Inl err
           | (None, consumptionBySCC) \<Rightarrow>
               NewVecDense (length consumptionBySCC) consumptionBySCC))"

section \<open>getEmissionsBySCC\<close>

text \<open>
  The emissions matrix has one column per sector. After the column count is checked
  against the sector list, every column is summed from its first row to its last.
\<close>

definition sumColumn ::
  "('a::{zero,plus}) Dense \<Rightarrow> nat \<Rightarrow> 'a list \<Rightarrow> error option \<times> 'a list" where
  "sumColumn emis sectorIdx emisSCC =
     (case ColView emis sectorIdx of
        Inl err \<Rightarrow> (Some err, emisSCC)
      | Inr emissionsForSector \<Rightarrow>
          (None, emisSCC[sectorIdx := foldl (+) 0 emissionsForSector]))"

definition getEmissionsBySCC ::
  "'a list \<Rightarrow> ('d, 'a::{zero,plus}) Server \<Rightarrow> year \<Rightarrow> Location \<Rightarrow> error + 'a list" where
  "getEmissionsBySCC demand s yr loc =
     (case EmissionsMatrix s demand yr loc of
        Inl err \<Rightarrow> Inl (errors_Wrap err ''error getting emissions matrix'')
      | Inr emis \<Rightarrow>
          if ncols emis \<noteq> length (SCCs s)
          then Inl (EmissionsColumns (length (SCCs s)) (ncols emis))
          else (case forEach (sumColumn emis) [0..<length (SCCs s)]
                       (replicate (length (SCCs s)) 0) of
                  (Some err, _) \<Rightarrow> Inl err
                | (None, emisSCC) \<Rightarrow> NewVecDense (length emisSCC) emisSCC))"

section \<open>demAndEmissions\<close>

text \<open>
  One row per demographic group: the group's consumption by sector times the emissions
  of the sector, cell by cell. The running total \<^verbatim>\<open>manualDot\<close> of the source is never
  read and is left out.
\<close>

definition setDemAndSCC ::
  "('a::times) list \<Rightarrow> 'a list \<Rightarrow> nat \<Rightarrow> nat \<Rightarrow> 'a Dense \<Rightarrow> error option \<times> 'a Dense" where
  "setDemAndSCC consumption emis demIdx sectorIdx demAndSec =
     (case Vec_At consumption sectorIdx of
        Inl err \<Rightarrow> (Some err, demAndSec)
      | Inr c \<Rightarrow>
          (case Vec_At emis sectorIdx of
             Inl err \<Rightarrow> (Some err, demAndSec)
           | Inr e \<Rightarrow>
               (case Dense_Set demAndSec demIdx sectorIdx (c * e) of
                  Inl err \<Rightarrow> (Some err, demAndSec)
                | Inr demAndSec' \<Rightarrow> (None, demAndSec'))))"

definition fillDemRow ::
  "('d, 'a::{zero,plus,times}) Server \<Rightarrow> 'd list \<Rightarrow> year \<Rightarrow> 'a list \<Rightarrow> nat \<Rightarrow> 'a Dense
     \<Rightarrow> error option \<times> 'a Dense" where
  "fillDemRow s dems yr emis demIdx demAndSec =
     (case getConsumptionBySCC s (dems ! demIdx) yr of
        Inl err \<Rightarrow> (Some (errors_Wrap err ''error getting consumption''), demAndSec)
      | Inr consumption \<Rightarrow>
          forEach (setDemAndSCC consumption emis demIdx) [0..<length consumption] demAndSec)"

definition demAndEmissions ::
  "('d, 'a::{zero,plus,times}) Server \<Rightarrow> 'a list \<Rightarrow> 'd list \<Rightarrow> year \<Rightarrow> Location
     \<Rightarrow> error + ('a Dense \<times> string list)" where
  "demAndEmissions s demand dems yr loc =
     (case getEmissionsBySCC demand s yr loc of
        Inl err \<Rightarrow> Inl (errors_Wrap err ''error getting emissions by SCC'')
      | Inr emis \<Rightarrow>
          (case NewDense (length dems) (length (SCCs s)) of
             Inl err \<Rightarrow> Inl err
           | Inr demAndSec \<Rightarrow>
               (case forEach (fillDemRow s dems yr emis) [0..<length dems] demAndSec of
                  (Some err, _) \<Rightarrow> Inl err
                | (None, demAndSec') \<Rightarrow> Inr (demAndSec', SCCs s))))"

section \<open>populationAdjust\<close>

text \<open>
  \<^verbatim>\<open>populationAdjust\<close> changes the matrix it is given in place and returns an error or
  nil: the model returns the error, if any, together with the matrix as the call leaves
  it. \<open>float64\<close> is the conversion \<^verbatim>\<open>float64(n)\<close> of a Go \<^verbatim>\<open>int\<close> into the cell type.
  \<open>countPopulation\<close> is the first loop, which asks the server for every group's count,
  always for the year 2015, and keeps the counts and their sum.
\<close>

definition countDem ::
  "('d, 'a) Server \<Rightarrow> nat \<times> 'd \<Rightarrow> goint \<times> goint list \<Rightarrow> error option \<times> (goint \<times> goint list)" where
  "countDem s = (\<lambda>(demIdx, dem) (totalPop, popCounts).
     case TotalPopulationCount s dem 2015 of
       Inl err \<Rightarrow> (Some err, (totalPop, popCounts))
     | Inr demCount \<Rightarrow> (None, (totalPop + demCount, popCounts[demIdx := demCount])))"

definition countPopulation ::
  "('d, 'a) Server \<Rightarrow> 'd list \<Rightarrow> error option \<times> (goint \<times> goint list)" where
  "countPopulation s dems =
     forEach (countDem s) (enumerate 0 dems) (0, replicate (length dems) 0)"

definition adjustCell ::
  "('a::times) \<Rightarrow> nat \<Rightarrow> nat \<Rightarrow> 'a Dense \<Rightarrow> error option \<times> 'a Dense" where
  "adjustCell adjustRatio demIdx j emisByDemAndSCC =
     (case Dense_At emisByDemAndSCC demIdx j of
        Inl err \<Rightarrow> (Some err, emisByDemAndSCC)
      | Inr v \<Rightarrow>
          (case Dense_Set emisByDemAndSCC demIdx j (v * adjustRatio) of
             Inl err \<Rightarrow> (Some err, emisByDemAndSCC)
           | Inr M' \<Rightarrow> (None, M')))"

definition adjustRow ::
  "(goint \<Rightarrow> 'a::{times,inverse}) \<Rightarrow> goint \<Rightarrow> goint list \<Rightarrow> nat \<Rightarrow> nat \<Rightarrow> 'a Dense
     \<Rightarrow> error option \<times> 'a Dense" where
  "adjustRow float64 totalPop popCounts numCols demIdx emisByDemAndSCC =
     (let adjustRatio = float64 totalPop / float64 (popCounts ! demIdx)
      in forEach (adjustCell adjustRatio demIdx) [0..<numCols] emisByDemAndSCC)"

definition populationAdjust ::
  "(goint \<Rightarrow> 'a::{times,inverse}) \<Rightarrow> ('d, 'a) Server \<Rightarrow> 'a Dense \<Rightarrow> 'd list
     \<Rightarrow> error option \<times> 'a Dense" where
  "populationAdjust float64 s emisByDemAndSCC dems =
     (case countPopulation s dems of
        (Some err, _) \<Rightarrow> (Some err, emisByDemAndSCC)
      | (None, (totalPop, popCounts)) \<Rightarrow>
          (let numRows = nrows emisByDemAndSCC; numCols = ncols emisByDemAndSCC
           in if numRows \<noteq> length dems
              then (Some (EmissionsRows numRows (length dems)), emisByDemAndSCC)
              else forEach (adjustRow float64 totalPop popCounts numCols) [0..<length dems]
                     emisByDemAndSCC))"

section \<open>getExposureByPopulation\<close>

text \<open>
  The Go maps from population names to numbers are partial maps; reading a missing key
  gives the zero value, as \<^verbatim>\<open>m[k] += x\<close> does on a key not yet present. A missing grid
  is the nil slice. The function builds the totals in local maps and ends with
  \<^verbatim>\<open>return nil, nil\<close>: its result pointer is nil.
\<close>

definition getOrZero :: "(string \<rightharpoonup> 'a::zero) \<Rightarrow> string \<Rightarrow> 'a" where
  "getOrZero m k = (case m k of None \<Rightarrow> 0 | Some v \<Rightarrow> v)"

definition fetchGrid ::
  "('d, 'a) Server \<Rightarrow> year \<Rightarrow> nat \<Rightarrow> string \<Rightarrow> (string \<rightharpoonup> 'a list)
     \<Rightarrow> error option \<times> (string \<rightharpoonup> 'a list)" where
  "fetchGrid s yr numConc popName populationGridsByPopName =
     (case PopulationIncidence s yr popName of
        Inl err \<Rightarrow> (Some err, populationGridsByPopName)
      | Inr pop \<Rightarrow>
          if length pop \<noteq> numConc
          then (Some (PopulationLength (length pop) numConc), populationGridsByPopName)
          else (None, populationGridsByPopName(popName \<mapsto> pop)))"

definition exposeCell ::
  "(string \<rightharpoonup> 'a list) \<Rightarrow> nat \<Rightarrow> ('a::{zero,plus,times}) \<Rightarrow> string
     \<Rightarrow> (string \<rightharpoonup> 'a) \<times> (string \<rightharpoonup> 'a) \<Rightarrow> error option \<times> ((string \<rightharpoonup> 'a) \<times> (string \<rightharpoonup> 'a))" where
  "exposeCell populationGridsByPopName gridIdx concentrationAmt popName = (\<lambda>(popTotals, exposureByPop).
     let grid = (case populationGridsByPopName popName of None \<Rightarrow> [] | Some g \<Rightarrow> g)
     in if gridIdx < length grid
        then (let numIndividuals = grid ! gridIdx
              in (None,
                  (popTotals(popName \<mapsto> getOrZero popTotals popName + numIndividuals),
                   exposureByPop(popName \<mapsto>
                     getOrZero exposureByPop popName + numIndividuals * concentrationAmt))))
        else (Some (Panic IndexOutOfRange), (popTotals, exposureByPop)))"

definition accumulateExposure ::
  "('a::{zero,plus,times}) list \<Rightarrow> string list \<Rightarrow> (string \<rightharpoonup> 'a list)
     \<Rightarrow> (string \<rightharpoonup> 'a) \<Rightarrow> error option \<times> ((string \<rightharpoonup> 'a) \<times> (string \<rightharpoonup> 'a))" where
  "accumulateExposure conc popNames populationGridsByPopName popTotals =
     forEach (\<lambda>(gridIdx, concentrationAmt).
                forEach (exposeCell populationGridsByPopName gridIdx concentrationAmt) popNames)
       (enumerate 0 conc) (popTotals, Map.empty)"

text \<open>
  \<open>exposureMaps\<close> is the body of \<^verbatim>\<open>getExposureByPopulation\<close> up to its last statement: the
  two local maps \<^verbatim>\<open>popTotals\<close> and \<^verbatim>\<open>exposureByPop\<close> as they stand there, or the error or
  panic that ended the call before. The function then logs \<^verbatim>\<open>exposureByPop\<close> and returns
  the nil pointer.
\<close>

definition exposureMaps ::
  "('d, 'a::{zero,plus,times}) Server \<Rightarrow> year \<Rightarrow> Location \<Rightarrow> 'a list
     \<Rightarrow> error + ((string \<rightharpoonup> 'a) \<times> (string \<rightharpoonup> 'a))" where
  "exposureMaps s yr loc demand =
     (case Concentrations s demand yr loc of
        (None, _) \<Rightarrow> Inl (Panic NilDereference)
      | (Some conc, Some err) \<Rightarrow> Inl err
      | (Some conc, None) \<Rightarrow>
          (case Populations s of
             Inl err \<Rightarrow> Inl err
           | Inr popNames \<Rightarrow>
               (case forEach (fetchGrid s yr (length conc)) popNames Map.empty of
                  (Some err, _) \<Rightarrow> Inl err
                | (None, populationGridsByPopName) \<Rightarrow>
                    (case accumulateExposure conc popNames populationGridsByPopName
                            (foldl (\<lambda>popTotals pop. popTotals(pop \<mapsto> 0)) Map.empty popNames) of
                       (Some err, _) \<Rightarrow> Inl err
                     | (None, (popTotals, exposureByPop)) \<Rightarrow> Inr (popTotals, exposureByPop)))))"

definition getExposureByPopulation ::
  "('d, 'a::{zero,plus,times}) Server \<Rightarrow> year \<Rightarrow> Location \<Rightarrow> 'a list
     \<Rightarrow> error + (string \<rightharpoonup> 'a) option" where
  "getExposureByPopulation s yr loc demand =
     (case exposureMaps s yr loc demand of
        Inl err \<Rightarrow> Inl err
      | Inr (popTotals, exposureByPop) \<Rightarrow> Inr None)"

section \<open>Terms of the statements\<close>

text \<open>
  \<open>contributions m vals k\<close> lists, in industry order, the values of the industries
  whose map entry contains the sector index \<open>k\<close>. A sum of a list of cells is the left
  fold \<open>foldl (+) 0\<close>, which adds in list order starting from zero, as the program's
  accumulation loops do.
\<close>

definition contributions :: "int list list \<Rightarrow> 'a list \<Rightarrow> nat \<Rightarrow> 'a list" where
  "contributions m vals k = map ((!) vals) (filter (\<lambda>i. int k \<in> set (m ! i)) [0..<length vals])"

text \<open>The sum of column \<open>j\<close> of a matrix, first row first.\<close>

definition columnSum :: "('a::{zero,plus}) Dense \<Rightarrow> nat \<Rightarrow> 'a" where
  "columnSum emis j = foldl (+) 0 (map (\<lambda>i. cells emis i j) [0..<nrows emis])"

section \<open>Concrete servers\<close>

text \<open>
  \<open>scenario\<close> is a server with two sectors, two industries mapped one to one onto them,
  two grid cells and the demographic groups \<open>''low''\<close> and \<open>''high''\<close>. Its numbers are
  small integers, so every result below is exact in binary64. The other servers differ
  from it in the fields named.
\<close>

definition scenario :: "(string, f64) Server" where
  "scenario =
     \<lparr>SCCs = [''2101'', ''2102''],
      IndustryToSCCMap = [[0], [1]],
      DemographicConsumption = (\<lambda>yr dem.
        if dem = ''low'' then Inr [Finite 1, Finite 1] else Inr [Finite 3, Finite 1]),
      EmissionsMatrix = (\<lambda>demand yr loc.
        Inr (fromRows 2 [[Finite 4, Finite 5], [Finite 6, Finite 15]])),
      TotalPopulationCount = (\<lambda>dem yr.
        if yr = 2015 then (if dem = ''low'' then Inr 100 else Inr 300) else Inr 50),
      Concentrations = (\<lambda>demand yr loc. (Some [Finite 5, Finite 10], None)),
      Populations = Inr [''A'', ''B''],
      PopulationIncidence = (\<lambda>yr popName.
        if popName = ''A'' then Inr [Finite 100, Finite 200] else Inr [Finite 50, Finite 50])\<rparr>"

text \<open>Three sectors; the first industry feeds two of them, the third sector none.\<close>

definition fanOut :: "(string, f64) Server" where
  "fanOut = scenario\<lparr>SCCs := [''2101'', ''2102'', ''2103''],
     IndustryToSCCMap := [[0, 1], [1]],
     DemographicConsumption := (\<lambda>yr dem. Inr [Finite 3, Finite 4])\<rparr>"

text \<open>A consumption vector with one entry for the two industries of the map.\<close>

definition shortVector :: "(string, f64) Server" where
  "shortVector = scenario\<lparr>DemographicConsumption := (\<lambda>yr dem. Inr [Finite 5])\<rparr>"

text \<open>A consumption vector with three entries for the two industries of the map.\<close>

definition longVector :: "(string, f64) Server" where
  "longVector = scenario\<lparr>DemographicConsumption :=
     (\<lambda>yr dem. Inr [Finite 5, Finite 6, Finite 7])\<rparr>"

text \<open>The group \<open>''low''\<close> has no members.\<close>

definition emptyGroup :: "(string, f64) Server" where
  "emptyGroup = scenario\<lparr>TotalPopulationCount :=
     (\<lambda>dem yr. if dem = ''low'' then Inr 0 else Inr 300)\<rparr>"

text \<open>Both industries feed the first sector only; one grid cell.\<close>

definition firstSectorOnly :: "(string, f64) Server" where
  "firstSectorOnly = scenario\<lparr>IndustryToSCCMap := [[0], [0]],
     EmissionsMatrix := (\<lambda>demand yr loc. Inr (fromRows 2 [[Finite 1, Finite 2]]))\<rparr>"

text \<open>The matrix of the scenario before adjustment.\<close>

definition unadjusted :: "f64 Dense" where
  "unadjusted = fromRows 2 [[Finite 10, Finite 20], [Finite 30, Finite 20]]"

section \<open>Loop lemmas\<close>

lemma forEach_append:
  "forEach body (xs @ ys) s =
     (case forEach body xs s of
        (Some err, s') \<Rightarrow> (Some err, s')
      | (None, s') \<Rightarrow> forEach body ys s')"
  by (induction xs arbitrary: s) (auto split: prod.splits option.splits)

lemma forEach_snoc:
  "forEach body (xs @ [x]) s =
     (case forEach body xs s of
        (Some err, s') \<Rightarrow> (Some err, s')
      | (None, s') \<Rightarrow> body x s')"
  by (simp add: forEach_append split: prod.splits option.splits)

lemma enumerate_snoc: "enumerate k (xs @ [x]) = enumerate k xs @ [(k + length xs, x)]"
  by (simp add: enumerate_append_eq)

lemma addToSCC_loop:
  "\<forall>i\<in>set sccs. 0 \<le> i \<and> i < int (length acc) \<Longrightarrow> distinct sccs \<Longrightarrow>
   forEach (addToSCC c) sccs acc =
     (None, map (\<lambda>k. if int k \<in> set sccs then acc ! k + c else acc ! k) [0..<length acc])"
proof (induction sccs arbitrary: acc)
  case Nil
  then show ?case by (simp add: map_nth)
next
  case (Cons a sccs)
  let ?acc' = "acc[nat a := acc ! nat a + c]"
  have a: "0 \<le> a" "a < int (length acc)" using Cons.prems by auto
  have "forEach (addToSCC c) (a # sccs) acc = forEach (addToSCC c) sccs ?acc'"
    using a by (simp add: addToSCC_def)
  also have "\<dots> = (None, map (\<lambda>k. if int k \<in> set sccs then ?acc' ! k + c else ?acc' ! k) [0..<length ?acc'])"
    using Cons.prems by (intro Cons.IH) auto
  also have "\<dots> = (None, map (\<lambda>k. if int k \<in> set (a # sccs) then acc ! k + c else acc ! k) [0..<length acc])"
    using a Cons.prems by (auto simp: nth_list_update)
  finally show ?case .
qed


lemma contributions_snoc:
  "contributions m (xs @ [x]) s =
     contributions m xs s @ (if int s \<in> set (m ! length xs) then [x] else [])"
proof -
  have "map ((!) (xs @ [x])) (filter (\<lambda>i. int s \<in> set (m ! i)) [0..<length xs]) =
        map ((!) xs) (filter (\<lambda>i. int s \<in> set (m ! i)) [0..<length xs])"
    by (rule map_cong) (auto simp: nth_append)
  then show ?thesis by (simp add: contributions_def)
qed

lemma addIndustry_pair:
  "addIndustry m (i, c) acc =
     (if i < length m then forEach (addToSCC c) (m ! i) acc
      else (Some (Panic IndexOutOfRange), acc))"
  by (simp add: addIndustry_def)

lemma aggregate_loop:
  assumes "length data \<le> length m"
    and "\<forall>i<length data. distinct (m ! i) \<and> (\<forall>x\<in>set (m ! i). 0 \<le> x \<and> x < int n)"
  shows "forEach (addIndustry m) (enumerate 0 data) (replicate n (0::'a::{zero,plus})) =
           (None, map (\<lambda>s. foldl (+) 0 (contributions m data s)) [0..<n])"
  using assms
proof (induction data rule: rev_induct)
  case Nil
  then show ?case by (simp add: contributions_def map_replicate_const)
next
  case (snoc x xs)
  let ?acc = "map (\<lambda>s. foldl (+) (0::'a) (contributions m xs s)) [0..<n]"
  have IH: "forEach (addIndustry m) (enumerate 0 xs) (replicate n 0) = (None, ?acc)"
  proof (rule snoc.IH)
    show "length xs \<le> length m" using snoc.prems(1) by simp
    show "\<forall>i<length xs. distinct (m ! i) \<and> (\<forall>x\<in>set (m ! i). 0 \<le> x \<and> x < int n)"
      using snoc.prems(2) by (simp add: less_Suc_eq)
  qed
  have lt: "length xs < length m" using snoc.prems by simp
  have ent: "distinct (m ! length xs)" "\<forall>i\<in>set (m ! length xs). 0 \<le> i \<and> i < int (length ?acc)"
    using snoc.prems(2) by auto
  have "forEach (addIndustry m) (enumerate 0 (xs @ [x])) (replicate n 0) =
        forEach (addToSCC x) (m ! length xs) ?acc"
    using lt by (simp add: enumerate_snoc forEach_snoc IH addIndustry_pair)
  also have "\<dots> = (None, map (\<lambda>k. if int k \<in> set (m ! length xs) then ?acc ! k + x else ?acc ! k)
                      [0..<length ?acc])"
    by (rule addToSCC_loop[OF ent(2) ent(1)])
  also have "\<dots> = (None, map (\<lambda>s. foldl (+) 0 (contributions m (xs @ [x]) s)) [0..<n])"
    by (simp add: contributions_snoc)
  finally show ?case .
qed


lemma foldl_plus_ge:
  fixes b :: "'a::{zero,plus,ord}"
  assumes mono: "\<forall>a b::'a. 0 \<le> a \<and> 0 \<le> b \<longrightarrow> a \<le> a + b \<and> b \<le> a + b"
    and trans: "\<forall>a b c::'a. a \<le> b \<and> b \<le> c \<longrightarrow> a \<le> c"
  shows "x \<le> b \<Longrightarrow> 0 \<le> b \<Longrightarrow> \<forall>v\<in>set L. 0 \<le> v \<Longrightarrow> x \<le> foldl (+) b L"
proof (induction L arbitrary: b)
  case Nil
  then show ?case by simp
next
  case (Cons y ys)
  have y: "0 \<le> y" using Cons.prems(3) by simp
  have 1: "b \<le> b + y" using mono Cons.prems(2) y by blast
  have 2: "x \<le> b + y" using trans Cons.prems(1) 1 by blast
  have 3: "0 \<le> b + y" using trans Cons.prems(2) 1 by blast
  show ?case using Cons.IH[OF 2 3] Cons.prems(3) by simp
qed

lemma foldl_plus_member:
  fixes b :: "'a::{zero,plus,ord}"
  assumes mono: "\<forall>a b::'a. 0 \<le> a \<and> 0 \<le> b \<longrightarrow> a \<le> a + b \<and> b \<le> a + b"
    and trans: "\<forall>a b c::'a. a \<le> b \<and> b \<le> c \<longrightarrow> a \<le> c"
  shows "x \<in> set L \<Longrightarrow> 0 \<le> b \<Longrightarrow> \<forall>v\<in>set L. 0 \<le> v \<Longrightarrow> x \<le> foldl (+) b L"
proof (induction L arbitrary: b)
  case Nil
  then show ?case by simp
next
  case (Cons y ys)
  have y: "0 \<le> y" using Cons.prems(3) by simp
  have 1: "b \<le> b + y" "y \<le> b + y" using mono Cons.prems(2) y by blast+
  have 3: "0 \<le> b + y" using trans Cons.prems(2) 1(1) by blast
  show ?case
  proof (cases "x = y")
    case True
    have "y \<le> foldl (+) (b + y) ys"
      using foldl_plus_ge[OF mono trans 1(2) 3] Cons.prems(3) by simp
    then show ?thesis using True by simp
  next
    case False
    then have "x \<in> set ys" using Cons.prems(1) by simp
    then show ?thesis using Cons.IH[OF _ 3] Cons.prems(3) by simp
  qed
qed

lemma contributions_member:
  "i < length vals \<Longrightarrow> int k \<in> set (m ! i) \<Longrightarrow> vals ! i \<in> set (contributions m vals k)"
  by (auto simp: contributions_def)

lemma contributions_subset: "set (contributions m vals k) \<subseteq> set vals"
  by (auto simp: contributions_def)

lemma contributions_none:
  "\<forall>i<length vals. int k \<notin> set (m ! i) \<Longrightarrow> contributions m vals k = []"
  by (auto simp: contributions_def filter_empty_conv)


lemma getConsumptionBySCC_sums:
  fixes s :: "('d, 'a::{zero,plus,ord}) Server"
  assumes prov: "DemographicConsumption s yr dem = Inr vals"
    and len: "length vals \<le> length (IndustryToSCCMap s)"
    and ent: "\<forall>i<length vals. distinct (IndustryToSCCMap s ! i) \<and>
               (\<forall>x\<in>set (IndustryToSCCMap s ! i). 0 \<le> x \<and> x < int (length (SCCs s)))"
    and ne: "SCCs s \<noteq> []"
  shows "getConsumptionBySCC s dem yr = Inr (map (\<lambda>k. foldl (+) (0::'a) (contributions (IndustryToSCCMap s) vals k)) [0..<length (SCCs s)])"
proof -
  let ?m = "IndustryToSCCMap s"
  let ?n = "length (SCCs s)"
  let ?out = "map (\<lambda>k. foldl (+) (0::'a) (contributions ?m vals k)) [0..<?n]"
  have agg: "aggregateBySCC ?m ?n vals = (None, ?out)"
    unfolding aggregateBySCC_def using len ent by (rule aggregate_loop)
  show res: "getConsumptionBySCC s dem yr = Inr ?out"
    using ne by (simp add: getConsumptionBySCC_def prov agg NewVecDense_def)
qed


lemma contribution_le_sum:
  fixes vals :: "('a::{zero,plus,ord}) list"
  assumes k: "k < n"
    and mono: "\<forall>a b::'a. 0 \<le> a \<and> 0 \<le> b \<longrightarrow> a \<le> a + b \<and> b \<le> a + b"
    and trans: "\<forall>a b c::'a. a \<le> b \<and> b \<le> c \<longrightarrow> a \<le> c"
    and zero: "(0::'a) \<le> 0" and pos: "\<forall>v\<in>set vals. 0 \<le> v"
    and i: "i < length vals" "int k \<in> set (m ! i)"
  shows "vals ! i \<le> foldl (+) 0 (contributions m vals k)"
proof -
  have nonneg: "\<forall>v\<in>set (contributions m vals k). 0 \<le> v"
    using pos contributions_subset[of m vals k] by blast
  show ?thesis
    by (rule foldl_plus_member[OF mono trans contributions_member[OF i] zero nonneg])
qed

section \<open>The arithmetic of \<open>f64\<close>\<close>

lemma f64_add_mono: "\<forall>a b::f64. 0 \<le> a \<and> 0 \<le> b \<longrightarrow> a \<le> a + b \<and> b \<le> a + b"
proof (intro allI impI)
  fix a b :: f64
  assume "0 \<le> a \<and> 0 \<le> b"
  then show "a \<le> a + b \<and> b \<le> a + b"
    by (cases a; cases b) (simp_all add: less_eq_f64_def plus_f64_def zero_f64_def)
qed

lemma f64_le_trans: "\<forall>a b c::f64. a \<le> b \<and> b \<le> c \<longrightarrow> a \<le> c"
proof (intro allI impI)
  fix a b c :: f64
  assume "a \<le> b \<and> b \<le> c"
  then show "a \<le> c"
    by (cases a; cases b; cases c) (simp_all add: less_eq_f64_def)
qed

section \<open>Sector aggregation\<close>

text \<open>
  Claim C7. When the consumption service answers with \<open>vals\<close>, the map has an entry for
  every industry of \<open>vals\<close>, each such entry lists distinct sector indices within the
  sector list, and the sector list is not empty, \<open>getConsumptionBySCC\<close> returns a vector
  with one entry per sector. The entry of sector \<open>k\<close> is the sum, in industry order, of
  the values of the industries whose map entry contains \<open>k\<close>: each value is added whole
  to every sector it maps to. A sector that no industry maps to stays zero. Where
  adding two non-negative cells gives a result no smaller than either (as rounding to
  nearest does) and the order is transitive, non-negative inputs give
  \<open>vals ! i \<le> out ! k\<close> for every sector \<open>k\<close> of industry \<open>i\<close>.
\<close>

theorem getConsumptionBySCC_fan_out:
  fixes s :: "('d, 'a::{zero,plus,ord}) Server"
  assumes prov: "DemographicConsumption s yr dem = Inr vals"
    and len: "length vals \<le> length (IndustryToSCCMap s)"
    and ent: "\<forall>i<length vals. distinct (IndustryToSCCMap s ! i) \<and>
               (\<forall>x\<in>set (IndustryToSCCMap s ! i). 0 \<le> x \<and> x < int (length (SCCs s)))"
    and ne: "SCCs s \<noteq> []"
  shows "\<exists>out. getConsumptionBySCC s dem yr = Inr out \<and> length out = length (SCCs s) \<and>
           (\<forall>k<length (SCCs s).
              out ! k = foldl (+) 0 (contributions (IndustryToSCCMap s) vals k) \<and>
              ((\<forall>i<length vals. int k \<notin> set (IndustryToSCCMap s ! i)) \<longrightarrow> out ! k = 0) \<and>
              ((\<forall>a b::'a. 0 \<le> a \<and> 0 \<le> b \<longrightarrow> a \<le> a + b \<and> b \<le> a + b) \<and>
               (\<forall>a b c::'a. a \<le> b \<and> b \<le> c \<longrightarrow> a \<le> c) \<and> (0::'a) \<le> 0 \<and>
               (\<forall>v\<in>set vals. 0 \<le> v) \<longrightarrow>
               (\<forall>i<length vals. int k \<in> set (IndustryToSCCMap s ! i) \<longrightarrow> vals ! i \<le> out ! k)))"
proof -
  let ?m = "IndustryToSCCMap s"
  let ?n = "length (SCCs s)"
  let ?out = "map (\<lambda>k. foldl (+) (0::'a) (contributions ?m vals k)) [0..<?n]"
  have res: "getConsumptionBySCC s dem yr = Inr ?out"
    by (rule getConsumptionBySCC_sums[OF prov len ent ne])
  have lenout: "length ?out = ?n" by simp
  have P: "\<forall>k<?n. ?out ! k = foldl (+) 0 (contributions ?m vals k) \<and>
          ((\<forall>i<length vals. int k \<notin> set (?m ! i)) \<longrightarrow> ?out ! k = 0) \<and>
          ((\<forall>a b::'a. 0 \<le> a \<and> 0 \<le> b \<longrightarrow> a \<le> a + b \<and> b \<le> a + b) \<and>
           (\<forall>a b c::'a. a \<le> b \<and> b \<le> c \<longrightarrow> a \<le> c) \<and> (0::'a) \<le> 0 \<and>
           (\<forall>v\<in>set vals. 0 \<le> v) \<longrightarrow>
           (\<forall>i<length vals. int k \<in> set (?m ! i) \<longrightarrow> vals ! i \<le> ?out ! k))"
  proof (intro allI impI)
    fix k assume k: "k < ?n"
    have nth: "?out ! k = foldl (+) 0 (contributions ?m vals k)" using k by simp
    have a: "(\<forall>i<length vals. int k \<notin> set (?m ! i)) \<longrightarrow> ?out ! k = 0"
    proof
      assume "\<forall>i<length vals. int k \<notin> set (?m ! i)"
      then have "contributions ?m vals k = []" by (rule contributions_none)
      then show "?out ! k = 0" unfolding nth by simp
    qed
    have b: "(\<forall>a b::'a. 0 \<le> a \<and> 0 \<le> b \<longrightarrow> a \<le> a + b \<and> b \<le> a + b) \<and>
           (\<forall>a b c::'a. a \<le> b \<and> b \<le> c \<longrightarrow> a \<le> c) \<and> (0::'a) \<le> 0 \<and>
           (\<forall>v\<in>set vals. 0 \<le> v) \<longrightarrow>
           (\<forall>i<length vals. int k \<in> set (?m ! i) \<longrightarrow> vals ! i \<le> ?out ! k)"
    proof (intro impI allI, elim conjE)
      fix i
      assume mono: "\<forall>a b::'a. 0 \<le> a \<and> 0 \<le> b \<longrightarrow> a \<le> a + b \<and> b \<le> a + b"
        and trans: "\<forall>a b c::'a. a \<le> b \<and> b \<le> c \<longrightarrow> a \<le> c"
        and zero: "(0::'a) \<le> 0" and pos: "\<forall>v\<in>set vals. 0 \<le> v"
        and i: "i < length vals" "int k \<in> set (?m ! i)"
      show "vals ! i \<le> ?out ! k"
        unfolding nth by (rule contribution_le_sum[OF k mono trans zero pos i])
    qed
    show "?out ! k = foldl (+) 0 (contributions ?m vals k) \<and>
          ((\<forall>i<length vals. int k \<notin> set (?m ! i)) \<longrightarrow> ?out ! k = 0) \<and>
          ((\<forall>a b::'a. 0 \<le> a \<and> 0 \<le> b \<longrightarrow> a \<le> a + b \<and> b \<le> a + b) \<and>
           (\<forall>a b c::'a. a \<le> b \<and> b \<le> c \<longrightarrow> a \<le> c) \<and> (0::'a) \<le> 0 \<and>
           (\<forall>v\<in>set vals. 0 \<le> v) \<longrightarrow>
           (\<forall>i<length vals. int k \<in> set (?m ! i) \<longrightarrow> vals ! i \<le> ?out ! k))"
      by (intro conjI nth a b)
  qed
  show ?thesis by (intro exI[of _ "?out"] conjI res lenout P)
qed

theorem getConsumptionBySCC_fan_out_witness:
  "DemographicConsumption fanOut 2015 ''low'' = Inr [Finite 3, Finite 4] \<and>
   IndustryToSCCMap fanOut = [[0, 1], [1]] \<and>
   getConsumptionBySCC fanOut ''low'' 2015 = Inr [Finite 3, Finite 7, Finite 0] \<and>
   (Finite 3 :: f64) \<le> Finite 3 \<and> (Finite 3 :: f64) \<le> Finite 7 \<and> (Finite 4 :: f64) \<le> Finite 7"
proof -
  let ?vals = "[Finite 3, Finite 4]"
  have h1: "DemographicConsumption fanOut 2015 ''low'' = Inr ?vals"
    by (simp add: fanOut_def)
  have m: "IndustryToSCCMap fanOut = [[0, 1], [1]]" and n: "length (SCCs fanOut) = 3"
    by (simp_all add: fanOut_def)
  have h2: "length ?vals \<le> length (IndustryToSCCMap fanOut)"
    by (simp add: m)
  have h3: "\<forall>i<length ?vals. distinct (IndustryToSCCMap fanOut ! i) \<and>
              (\<forall>x\<in>set (IndustryToSCCMap fanOut ! i). 0 \<le> x \<and> x < int (length (SCCs fanOut)))"
    by (simp add: m n less_Suc_eq)
  have h4: "SCCs fanOut \<noteq> []" by (simp add: fanOut_def)
  have pos: "\<forall>v\<in>set ?vals. (0::f64) \<le> v"
    by (simp add: less_eq_f64_def zero_f64_def)
  have zero: "(0::f64) \<le> 0" by (simp add: less_eq_f64_def zero_f64_def)
  have laws: "(\<forall>a b::f64. 0 \<le> a \<and> 0 \<le> b \<longrightarrow> a \<le> a + b \<and> b \<le> a + b) \<and>
               (\<forall>a b c::f64. a \<le> b \<and> b \<le> c \<longrightarrow> a \<le> c) \<and> (0::f64) \<le> 0 \<and>
               (\<forall>v\<in>set ?vals. 0 \<le> v)"
    by (intro conjI f64_add_mono f64_le_trans zero pos)
  from getConsumptionBySCC_fan_out[OF h1 h2 h3 h4] obtain out
    where all: "getConsumptionBySCC fanOut ''low'' 2015 = Inr out \<and> length out = length (SCCs fanOut) \<and>
           (\<forall>k<length (SCCs fanOut).
              out ! k = foldl (+) 0 (contributions (IndustryToSCCMap fanOut) ?vals k) \<and>
              ((\<forall>i<length ?vals. int k \<notin> set (IndustryToSCCMap fanOut ! i)) \<longrightarrow> out ! k = 0) \<and>
              ((\<forall>a b::f64. 0 \<le> a \<and> 0 \<le> b \<longrightarrow> a \<le> a + b \<and> b \<le> a + b) \<and>
               (\<forall>a b c::f64. a \<le> b \<and> b \<le> c \<longrightarrow> a \<le> c) \<and> (0::f64) \<le> 0 \<and>
               (\<forall>v\<in>set ?vals. 0 \<le> v) \<longrightarrow>
               (\<forall>i<length ?vals. int k \<in> set (IndustryToSCCMap fanOut ! i) \<longrightarrow> ?vals ! i \<le> out ! k)))" ..
  note res = all[THEN conjunct1] and len = all[THEN conjunct2, THEN conjunct1]
    and P = all[THEN conjunct2, THEN conjunct2, THEN spec, THEN mp]
  have k: "0 < length (SCCs fanOut)" "1 < length (SCCs fanOut)" "2 < length (SCCs fanOut)"
    by (simp_all add: n)
  note sum0 = P[OF k(1), THEN conjunct1] and sum1 = P[OF k(2), THEN conjunct1]
    and zero2 = P[OF k(3), THEN conjunct2, THEN conjunct1]
    and ge0 = P[OF k(1), THEN conjunct2, THEN conjunct2, THEN mp, OF laws]
    and ge1 = P[OF k(2), THEN conjunct2, THEN conjunct2, THEN mp, OF laws]
  have c: "foldl (+) 0 (contributions (IndustryToSCCMap fanOut) ?vals 0) = Finite 3"
    "foldl (+) 0 (contributions (IndustryToSCCMap fanOut) ?vals 1) = Finite 7"
    by code_simp+
  have nth: "out ! 0 = Finite 3" "out ! 1 = Finite 7" "out ! 2 = Finite 0"
    using sum0 sum1 zero2 c by (simp_all add: m less_Suc_eq zero_f64_def)
  have eq: "out = [Finite 3, Finite 7, Finite 0]"
    using len nth by (auto simp: n list_eq_iff_nth_eq less_Suc_eq numeral_3_eq_3 numeral_2_eq_2)
  have "?vals ! 0 \<le> out ! 0" "?vals ! 0 \<le> out ! 1" "?vals ! 1 \<le> out ! 1"
    using ge0 ge1 by (simp_all add: m All_less_Suc)
  then show ?thesis using h1 m res by (simp add: eq)
qed

section \<open>Vector and map lengths\<close>

lemma forEach_cong:
  "(\<And>x s. x \<in> set xs \<Longrightarrow> f x s = g x s) \<Longrightarrow> forEach f xs s = forEach g xs s"
  by (induction xs arbitrary: s) (auto split: prod.splits option.splits)

lemma addToSCC_Cons:
  "forEach (addToSCC c) (a # sccs) acc =
     (if 0 \<le> a \<and> a < int (length acc)
      then forEach (addToSCC c) sccs (acc[nat a := acc ! nat a + c])
      else (Some (Panic IndexOutOfRange), acc))"
  by (simp add: addToSCC_def)

lemma addToSCC_loop_length:
  "\<forall>i\<in>set sccs. 0 \<le> i \<and> i < int (length acc) \<Longrightarrow>
   \<exists>acc'. forEach (addToSCC c) sccs acc = (None, acc') \<and> length acc' = length acc"
proof (induction sccs arbitrary: acc)
  case Nil
  then show ?case by simp
next
  case (Cons a sccs)
  let ?acc' = "acc[nat a := acc ! nat a + c]"
  have "\<exists>acc''. forEach (addToSCC c) sccs ?acc' = (None, acc'') \<and> length acc'' = length ?acc'"
    using Cons.prems by (intro Cons.IH) simp
  then show ?case using Cons.prems by (simp add: addToSCC_Cons del: forEach.simps)
qed

lemma addToSCC_loop_panic:
  "forEach (addToSCC c) sccs acc = (Some e, acc') \<Longrightarrow> e = Panic IndexOutOfRange"
  by (induction sccs arbitrary: acc) (auto simp: addToSCC_Cons simp del: forEach.simps(2) split: if_splits)

lemma addIndustry_loop_length:
  "k + length data \<le> length m \<Longrightarrow>
   \<forall>i<length data. \<forall>x\<in>set (m ! (k + i)). 0 \<le> x \<and> x < int (length acc) \<Longrightarrow>
   \<exists>acc'. forEach (addIndustry m) (enumerate k data) acc = (None, acc') \<and> length acc' = length acc"
proof (induction data arbitrary: k acc)
  case Nil
  then show ?case by simp
next
  case (Cons c cs)
  have "\<forall>x\<in>set (m ! k). 0 \<le> x \<and> x < int (length acc)"
    using Cons.prems(2) by fastforce
  then obtain acc1 where 1: "forEach (addToSCC c) (m ! k) acc = (None, acc1)" "length acc1 = length acc"
    using addToSCC_loop_length by blast
  have "\<exists>acc'. forEach (addIndustry m) (enumerate (Suc k) cs) acc1 = (None, acc') \<and> length acc' = length acc1"
  proof (rule Cons.IH)
    show "Suc k + length cs \<le> length m" using Cons.prems(1) by simp
    show "\<forall>i<length cs. \<forall>x\<in>set (m ! (Suc k + i)). 0 \<le> x \<and> x < int (length acc1)"
      using Cons.prems(2) 1(2) by fastforce
  qed
  then show ?case using Cons.prems(1) 1 by (simp add: addIndustry_pair)
qed

lemma addIndustry_loop_panic:
  "forEach (addIndustry m) xs acc = (Some e, acc') \<Longrightarrow> e = Panic IndexOutOfRange"
proof (induction xs arbitrary: acc)
  case Nil
  then show ?case by simp
next
  case (Cons x xs)
  obtain i c where x: "x = (i, c)" by (cases x)
  show ?case
  proof (cases "addIndustry m (i, c) acc")
    case (Pair r acc1)
    show ?thesis
    proof (cases r)
      case None
      then show ?thesis using Cons x Pair by simp
    next
      case (Some e')
      then have "e' = Panic IndexOutOfRange"
        using Pair addToSCC_loop_panic[of c "m ! i" acc e' acc1]
        by (auto simp: addIndustry_pair split: if_splits)
      then show ?thesis using Cons.prems x Pair Some by simp
    qed
  qed
qed

lemma addIndustry_loop_overrun:
  "k \<le> length m \<Longrightarrow> length m < k + length data \<Longrightarrow>
   fst (forEach (addIndustry m) (enumerate k data) acc) \<noteq> None"
proof (induction data arbitrary: k acc)
  case Nil
  then show ?case by simp
next
  case (Cons c cs)
  show ?case
  proof (cases "k = length m")
    case True
    then show ?thesis by (simp add: addIndustry_pair)
  next
    case False
    then have "Suc k \<le> length m" "length m < Suc k + length cs" using Cons.prems by simp_all
    then have "\<And>acc1. fst (forEach (addIndustry m) (enumerate (Suc k) cs) acc1) \<noteq> None"
      by (rule Cons.IH)
    then show ?thesis by (auto split: prod.splits option.splits)
  qed
qed

lemma aggregateBySCC_take:
  assumes "length data \<le> length m"
  shows "aggregateBySCC (take (length data) m) n data = aggregateBySCC m n data"
  unfolding aggregateBySCC_def
proof (rule forEach_cong)
  fix x :: "nat \<times> 'a" and acc :: "'a list"
  assume mem: "x \<in> set (enumerate 0 data)"
  obtain i c where x: "x = (i, c)" by (cases x)
  have i: "i < length data" using mem unfolding x by (simp add: in_set_enumerate_eq)
  show "addIndustry (take (length data) m) x acc = addIndustry m x acc"
    using assms i by (simp add: x addIndustry_pair)
qed


text \<open>
  Claim C4, as stated, fails: \<open>getConsumptionBySCC\<close> never compares the length of the
  consumption vector with the number of industries of the map. Here the vector has one
  entry, the map two industries, and the call returns a sector vector and no error.
\<close>

theorem getConsumptionBySCC_accepts_short_counterexample:
  "DemographicConsumption shortVector 2015 ''low'' = Inr [Finite 5] \<and>
   length (IndustryToSCCMap shortVector) = 2 \<and>
   getConsumptionBySCC shortVector ''low'' 2015 = Inr [Finite 5, Finite 0]"
  by code_simp

text \<open>
  Claim C4, amended. Given the consumption vector \<open>vals\<close> of the service:
  a vector no longer than the map gives the same result as the map cut to the vector's
  length, so the industries beyond the vector contribute nothing; with the sector
  indices of its industries in range and a non-empty sector list the call returns a
  vector with one entry per sector; and a vector longer than the map ends in Go's
  index-out-of-range panic, not in an error value.
\<close>

theorem getConsumptionBySCC_length_unchecked:
  fixes s :: "('d, 'a::{zero,plus}) Server"
  assumes prov: "DemographicConsumption s yr dem = Inr vals"
  shows "(length vals \<le> length (IndustryToSCCMap s) \<longrightarrow>
            getConsumptionBySCC s dem yr =
            getConsumptionBySCC (s\<lparr>IndustryToSCCMap := take (length vals) (IndustryToSCCMap s)\<rparr>) dem yr) \<and>
         (length vals \<le> length (IndustryToSCCMap s) \<and>
          (\<forall>i<length vals. \<forall>x\<in>set (IndustryToSCCMap s ! i). 0 \<le> x \<and> x < int (length (SCCs s))) \<and>
          SCCs s \<noteq> [] \<longrightarrow>
            (\<exists>out. getConsumptionBySCC s dem yr = Inr out \<and> length out = length (SCCs s))) \<and>
         (length (IndustryToSCCMap s) < length vals \<longrightarrow>
            getConsumptionBySCC s dem yr = Inl (Panic IndexOutOfRange))"
proof (intro conjI impI)
  assume "length vals \<le> length (IndustryToSCCMap s)"
  then show "getConsumptionBySCC s dem yr =
      getConsumptionBySCC (s\<lparr>IndustryToSCCMap := take (length vals) (IndustryToSCCMap s)\<rparr>) dem yr"
    by (simp add: getConsumptionBySCC_def prov aggregateBySCC_take)
next
  assume a: "length vals \<le> length (IndustryToSCCMap s) \<and>
          (\<forall>i<length vals. \<forall>x\<in>set (IndustryToSCCMap s ! i). 0 \<le> x \<and> x < int (length (SCCs s))) \<and>
          SCCs s \<noteq> []"
  have "\<exists>acc'. forEach (addIndustry (IndustryToSCCMap s)) (enumerate 0 vals)
            (replicate (length (SCCs s)) 0) = (None, acc') \<and>
          length acc' = length (replicate (length (SCCs s)) (0::'a))"
    using a by (intro addIndustry_loop_length) simp_all
  then obtain acc' where
    "aggregateBySCC (IndustryToSCCMap s) (length (SCCs s)) vals = (None, acc')"
    "length acc' = length (SCCs s)"
    by (auto simp: aggregateBySCC_def)
  then show "\<exists>out. getConsumptionBySCC s dem yr = Inr out \<and> length out = length (SCCs s)"
    using a by (auto simp: getConsumptionBySCC_def prov NewVecDense_def)
next
  assume lt: "length (IndustryToSCCMap s) < length vals"
  obtain r acc' where r: "aggregateBySCC (IndustryToSCCMap s) (length (SCCs s)) vals = (r, acc')"
    by (cases "aggregateBySCC (IndustryToSCCMap s) (length (SCCs s)) vals")
  have "r \<noteq> None"
    using addIndustry_loop_overrun[of 0 "IndustryToSCCMap s" vals "replicate (length (SCCs s)) 0"] lt r
    by (simp add: aggregateBySCC_def)
  then obtain e where e: "r = Some e" by (cases r) auto
  then have "e = Panic IndexOutOfRange"
    using r addIndustry_loop_panic by (fastforce simp: aggregateBySCC_def)
  then show "getConsumptionBySCC s dem yr = Inl (Panic IndexOutOfRange)"
    using r e by (simp add: getConsumptionBySCC_def prov)
qed

theorem getConsumptionBySCC_length_unchecked_witness:
  "getConsumptionBySCC shortVector ''low'' 2015 = Inr [Finite 5, Finite 0] \<and>
   getConsumptionBySCC (shortVector\<lparr>IndustryToSCCMap := [[0]]\<rparr>) ''low'' 2015 =
     Inr [Finite 5, Finite 0] \<and>
   getConsumptionBySCC longVector ''low'' 2015 = Inl (Panic IndexOutOfRange)"
proof -
  have short: "DemographicConsumption shortVector 2015 ''low'' = Inr [Finite 5]"
    by (simp add: shortVector_def)
  have long: "DemographicConsumption longVector 2015 ''low'' = Inr [Finite 5, Finite 6, Finite 7]"
    by (simp add: longVector_def)
  have m: "IndustryToSCCMap shortVector = [[0], [1]]" "IndustryToSCCMap longVector = [[0], [1]]"
    "SCCs shortVector = [''2101'', ''2102'']"
    by (simp_all add: shortVector_def longVector_def scenario_def)
  note short_facts = getConsumptionBySCC_length_unchecked[OF short]
  note long_facts = getConsumptionBySCC_length_unchecked[OF long]
  have 1: "getConsumptionBySCC shortVector ''low'' 2015 =
           getConsumptionBySCC (shortVector\<lparr>IndustryToSCCMap := [[0]]\<rparr>) ''low'' 2015"
    using short_facts[THEN conjunct1] by (simp add: m)
  obtain out where out: "getConsumptionBySCC shortVector ''low'' 2015 = Inr out" "length out = 2"
    using short_facts[THEN conjunct2, THEN conjunct1] by (auto simp: m)
  have 2: "getConsumptionBySCC shortVector ''low'' 2015 = Inr [Finite 5, Finite 0]"
    by code_simp
  have 3: "getConsumptionBySCC longVector ''low'' 2015 = Inl (Panic IndexOutOfRange)"
    using long_facts[THEN conjunct2, THEN conjunct2] by (simp add: m)
  show ?thesis using 1 2 3 out by simp
qed

section \<open>Emissions by sector\<close>

lemma sumColumn_loop:
  "n \<le> ncols emis \<Longrightarrow> n \<le> length acc \<Longrightarrow>
   forEach (sumColumn emis) [0..<n] acc =
     (None, map (\<lambda>j. if j < n then columnSum emis j else acc ! j) [0..<length acc])"
proof (induction n)
  case 0
  then show ?case by (simp add: map_nth)
next
  case (Suc n)
  let ?acc = "map (\<lambda>j. if j < n then columnSum emis j else acc ! j) [0..<length acc]"
  have IH: "forEach (sumColumn emis) [0..<n] acc = (None, ?acc)"
    using Suc by simp
  have step: "sumColumn emis n ?acc = (None, ?acc[n := columnSum emis n])"
    using Suc.prems by (simp add: sumColumn_def ColView_def columnSum_def)
  have "?acc[n := columnSum emis n] =
        map (\<lambda>j. if j < Suc n then columnSum emis j else acc ! j) [0..<length acc]"
  proof (rule nth_equalityI)
    show "length (?acc[n := columnSum emis n]) =
          length (map (\<lambda>j. if j < Suc n then columnSum emis j else acc ! j) [0..<length acc])"
      by simp
    fix j assume "j < length (?acc[n := columnSum emis n])"
    then have j: "j < length acc" by simp
    show "?acc[n := columnSum emis n] ! j =
          map (\<lambda>j. if j < Suc n then columnSum emis j else acc ! j) [0..<length acc] ! j"
      using j by (cases "j = n") (simp_all add: nth_list_update)
  qed
  then show ?case by (simp add: forEach_snoc IH step)
qed

lemma getEmissionsBySCC_value:
  fixes s :: "('d, 'a::{zero,plus}) Server"
  assumes "EmissionsMatrix s demand yr loc = Inr emis"
    and "ncols emis = length (SCCs s)" and "SCCs s \<noteq> []"
  shows "getEmissionsBySCC demand s yr loc = Inr (map (columnSum emis) [0..<length (SCCs s)])"
proof -
  have "forEach (sumColumn emis) [0..<length (SCCs s)] (replicate (length (SCCs s)) 0) =
          (None, map (columnSum emis) [0..<length (SCCs s)])"
    by (simp add: sumColumn_loop assms(2))
  then show ?thesis using assms by (simp add: getEmissionsBySCC_def NewVecDense_def)
qed


lemma firstSectorOnly_aggregate:
  fixes vals :: "f64 list"
  shows "aggregateBySCC [[0], [0]] 2 vals \<noteq> (None, [Finite 1, Finite 2])"
proof (cases "length vals \<le> 2")
  case True
  have ent: "\<forall>i<length vals. distinct ([[0], [0]] ! i :: int list) \<and>
               (\<forall>x\<in>set ([[0], [0]] ! i). 0 \<le> x \<and> x < int 2)"
    using True by (auto simp: nth_Cons' )
  have none: "contributions [[0], [0]] vals 1 = []"
    using True by (intro contributions_none) (auto simp: nth_Cons')
  have "aggregateBySCC [[0], [0]] 2 vals =
          (None, map (\<lambda>k. foldl (+) 0 (contributions [[0], [0]] vals k)) [0..<2])"
    unfolding aggregateBySCC_def using True ent by (intro aggregate_loop) simp_all
  then have "snd (aggregateBySCC [[0], [0]] 2 vals) ! 1 = Finite 0"
    using none by (simp add: zero_f64_def)
  then show ?thesis by auto
next
  case False
  then have "fst (aggregateBySCC [[0], [0]] 2 vals) \<noteq> None"
    unfolding aggregateBySCC_def by (intro addIndustry_loop_overrun) simp_all
  then show ?thesis by auto
qed

text \<open>
  Claim C5, as stated, fails: \<open>getEmissionsBySCC\<close> is not the aggregation of
  \<open>getConsumptionBySCC\<close> applied with the industry-to-sector map. On this server both
  industries map to the first sector only, so the aggregation leaves the second sector
  at zero whatever vector it is given, while the emissions of the second sector are 2.
\<close>

theorem getEmissionsBySCC_not_aggregate_counterexample:
  "getEmissionsBySCC [] firstSectorOnly 2015 0 = Inr [Finite 1, Finite 2] \<and>
   (\<nexists>vals. aggregateBySCC (IndustryToSCCMap firstSectorOnly) (length (SCCs firstSectorOnly)) vals =
       (None, [Finite 1, Finite 2]))"
proof -
  have "getEmissionsBySCC [] firstSectorOnly 2015 0 = Inr [Finite 1, Finite 2]"
    by code_simp
  moreover have "IndustryToSCCMap firstSectorOnly = [[0], [0]]" "length (SCCs firstSectorOnly) = 2"
    by (simp_all add: firstSectorOnly_def scenario_def)
  ultimately show ?thesis using firstSectorOnly_aggregate by simp
qed

text \<open>
  Claim C5, amended. Given the emissions matrix of the service, one column per sector:
  when its column count is the number of sectors (and there is a sector),
  \<open>getEmissionsBySCC\<close> returns for every sector the sum of its column over the rows,
  first row first; a different column count is the error of the column check; and the
  result does not depend on the industry-to-sector map.
\<close>

theorem getEmissionsBySCC_column_sums:
  fixes s :: "('d, 'a::{zero,plus}) Server"
  assumes "EmissionsMatrix s demand yr loc = Inr emis"
  shows "(ncols emis = length (SCCs s) \<and> SCCs s \<noteq> [] \<longrightarrow>
            getEmissionsBySCC demand s yr loc = Inr (map (columnSum emis) [0..<length (SCCs s)])) \<and>
         (ncols emis \<noteq> length (SCCs s) \<longrightarrow>
            getEmissionsBySCC demand s yr loc = Inl (EmissionsColumns (length (SCCs s)) (ncols emis))) \<and>
         getEmissionsBySCC demand (s\<lparr>IndustryToSCCMap := m\<rparr>) yr loc =
           getEmissionsBySCC demand s yr loc"
proof (intro conjI impI)
  assume "ncols emis = length (SCCs s) \<and> SCCs s \<noteq> []"
  then show "getEmissionsBySCC demand s yr loc = Inr (map (columnSum emis) [0..<length (SCCs s)])"
    using assms by (intro getEmissionsBySCC_value) simp_all
next
  assume "ncols emis \<noteq> length (SCCs s)"
  then show "getEmissionsBySCC demand s yr loc =
      Inl (EmissionsColumns (length (SCCs s)) (ncols emis))"
    using assms by (simp add: getEmissionsBySCC_def)
next
  show "getEmissionsBySCC demand (s\<lparr>IndustryToSCCMap := m\<rparr>) yr loc =
          getEmissionsBySCC demand s yr loc"
    by (simp add: getEmissionsBySCC_def split: sum.splits)
qed

theorem getEmissionsBySCC_column_sums_witness:
  "EmissionsMatrix scenario [] 2015 0 =
     Inr (fromRows 2 [[Finite 4, Finite 5], [Finite 6, Finite 15]]) \<and>
   getEmissionsBySCC [] scenario 2015 0 = Inr [Finite 10, Finite 20] \<and>
   getEmissionsBySCC [] (scenario\<lparr>SCCs := [''2101'']\<rparr>) 2015 0 = Inl (EmissionsColumns 1 2)"
proof -
  let ?emis = "fromRows 2 [[Finite 4, Finite 5], [Finite 6, Finite 15]]"
  have e: "EmissionsMatrix scenario [] 2015 0 = Inr ?emis"
    "EmissionsMatrix (scenario\<lparr>SCCs := [''2101'']\<rparr>) [] 2015 0 = Inr ?emis"
    by (simp_all add: scenario_def)
  have n: "SCCs scenario = [''2101'', ''2102'']" "ncols ?emis = 2"
    by (simp_all add: scenario_def fromRows_def)
  have sums: "columnSum ?emis 0 = Finite 10" "columnSum ?emis (Suc 0) = Finite 20"
    by code_simp+
  have 1: "getEmissionsBySCC [] scenario 2015 0 = Inr [Finite 10, Finite 20]"
    using getEmissionsBySCC_column_sums[OF e(1), THEN conjunct1] sums by (simp add: n)
  have 2: "getEmissionsBySCC [] (scenario\<lparr>SCCs := [''2101'']\<rparr>) 2015 0 = Inl (EmissionsColumns 1 2)"
    using getEmissionsBySCC_column_sums[OF e(2), THEN conjunct2, THEN conjunct1] by (simp add: n)
  show ?thesis using e(1) 1 2 by simp
qed

section \<open>Population counts\<close>

lemma countDem_pair:
  "countDem s (demIdx, dem) (totalPop, popCounts) =
     (case TotalPopulationCount s dem 2015 of
        Inl err \<Rightarrow> (Some err, (totalPop, popCounts))
      | Inr demCount \<Rightarrow> (None, (totalPop + demCount, popCounts[demIdx := demCount])))"
  by (simp add: countDem_def)

lemma countDem_loop:
  "map (\<lambda>d. TotalPopulationCount s d 2015) ds = map Inr cs \<Longrightarrow> length ds \<le> n \<Longrightarrow>
   forEach (countDem s) (enumerate 0 ds) (0, replicate n 0) =
     (None, (foldl (+) 0 cs, cs @ replicate (n - length ds) 0))"
proof (induction ds arbitrary: cs rule: rev_induct)
  case Nil
  then show ?case by simp
next
  case (snoc d ds)
  from snoc.prems(1) obtain cs' c where cs: "cs = cs' @ [c]"
    and m: "map (\<lambda>d. TotalPopulationCount s d 2015) ds = map Inr cs'"
    and c: "TotalPopulationCount s d 2015 = Inr c"
    by (cases cs rule: rev_cases) auto
  have len: "length cs' = length ds" using m by (metis length_map)
  have IH: "forEach (countDem s) (enumerate 0 ds) (0, replicate n 0) =
     (None, (foldl (+) 0 cs', cs' @ replicate (n - length ds) 0))"
    using snoc.prems(2) by (intro snoc.IH[OF m]) simp
  have upd: "(cs' @ replicate (n - length ds) 0)[length ds := c] =
             (cs' @ [c]) @ replicate (n - Suc (length ds)) 0"
    using snoc.prems(2) len
    by (simp add: list_update_append replicate_app_Cons_same Suc_diff_Suc
          flip: replicate_Suc) (metis Suc_diff_Suc Suc_le_lessD list_update_code(2) replicate_Suc)
  show ?case
    using c by (simp add: enumerate_snoc forEach_snoc IH countDem_pair cs upd)
qed


lemma countDem_loop_calls:
  "fst (forEach (countDem s) xs st) = None \<Longrightarrow>
   \<forall>x\<in>set xs. \<exists>c. TotalPopulationCount s (snd x) 2015 = Inr c"
proof (induction xs arbitrary: st)
  case Nil
  then show ?case by simp
next
  case (Cons x xs)
  obtain i d where x: "x = (i, d)" by (cases x)
  obtain t pc where st: "st = (t, pc)" by (cases st)
  show ?case
  proof (cases "TotalPopulationCount s d 2015")
    case (Inl err)
    then show ?thesis using Cons.prems by (simp add: x st countDem_pair)
  next
    case (Inr c)
    then have "fst (forEach (countDem s) xs (t + c, pc[i := c])) = None"
      using Cons.prems by (simp add: x st countDem_pair)
    then have "\<forall>x\<in>set xs. \<exists>c. TotalPopulationCount s (snd x) 2015 = Inr c"
      by (rule Cons.IH)
    then show ?thesis using Inr by (simp add: x)
  qed
qed

lemma countPopulation_counts:
  "map (\<lambda>d. TotalPopulationCount s d 2015) dems = map Inr cs \<Longrightarrow>
   countPopulation s dems = (None, (foldl (+) 0 cs, cs))"
  unfolding countPopulation_def by (simp add: countDem_loop)

lemma countPopulation_None:
  assumes "countPopulation s dems = (None, (t, cs))"
  shows "map (\<lambda>d. TotalPopulationCount s d 2015) dems = map Inr cs \<and> t = foldl (+) 0 cs"
proof -
  have "fst (forEach (countDem s) (enumerate 0 dems) (0, replicate (length dems) 0)) = None"
    using assms unfolding countPopulation_def by simp
  then have "\<forall>x\<in>set (enumerate 0 dems). \<exists>c. TotalPopulationCount s (snd x) 2015 = Inr c"
    by (rule countDem_loop_calls)
  moreover have "set dems = snd ` set (enumerate 0 dems)"
    by (metis map_snd_enumerate set_map)
  ultimately have "\<forall>d\<in>set dems. \<exists>c. TotalPopulationCount s d 2015 = Inr c"
    by auto
  then have "\<forall>d\<in>set dems. TotalPopulationCount s d 2015 =
               Inr (projr (TotalPopulationCount s d 2015))"
    by auto
  then have m: "map (\<lambda>d. TotalPopulationCount s d 2015) dems =
             map Inr (map (\<lambda>d. projr (TotalPopulationCount s d 2015)) dems)"
    by simp
  from countPopulation_counts[OF m] assms show ?thesis using m by simp
qed

lemma countPopulation_succeeds:
  assumes "\<forall>d\<in>set dems. \<exists>c. TotalPopulationCount s d 2015 = Inr c"
  shows "\<exists>cs. length cs = length dems \<and>
           countPopulation s dems = (None, (foldl (+) 0 cs, cs))"
proof -
  have "\<forall>d\<in>set dems. TotalPopulationCount s d 2015 =
               Inr (projr (TotalPopulationCount s d 2015))"
    using assms by auto
  then have m: "map (\<lambda>d. TotalPopulationCount s d 2015) dems =
             map Inr (map (\<lambda>d. projr (TotalPopulationCount s d 2015)) dems)"
    by simp
  from countPopulation_counts[OF m] show ?thesis
    by (intro exI[of _ "map (\<lambda>d. projr (TotalPopulationCount s d 2015)) dems"]) simp
qed

section \<open>Rescaling the rows\<close>

lemma adjustCell_value:
  "i < nrows M \<Longrightarrow> j < ncols M \<Longrightarrow>
   adjustCell r i j M = (None, M\<lparr>cells := (cells M)(i := (cells M i)(j := cells M i j * r))\<rparr>)"
  by (simp add: adjustCell_def Dense_At_def Dense_Set_def)

lemma adjustCell_loop:
  "i < nrows M \<Longrightarrow> n \<le> ncols M \<Longrightarrow>
   forEach (adjustCell r i) [0..<n] M =
     (None, M\<lparr>cells := (\<lambda>a b. if a = i \<and> b < n then cells M a b * r else cells M a b)\<rparr>)"
proof (induction n)
  case 0
  then show ?case by simp
next
  case (Suc n)
  let ?M = "M\<lparr>cells := (\<lambda>a b. if a = i \<and> b < n then cells M a b * r else cells M a b)\<rparr>"
  have IH: "forEach (adjustCell r i) [0..<n] M = (None, ?M)" using Suc by simp
  have step: "adjustCell r i n ?M =
      (None, ?M\<lparr>cells := (cells ?M)(i := (cells ?M i)(n := cells ?M i n * r))\<rparr>)"
    using Suc.prems by (intro adjustCell_value) simp_all
  have "?M\<lparr>cells := (cells ?M)(i := (cells ?M i)(n := cells ?M i n * r))\<rparr> =
        M\<lparr>cells := (\<lambda>a b. if a = i \<and> b < Suc n then cells M a b * r else cells M a b)\<rparr>"
    by (auto simp: fun_eq_iff less_Suc_eq)
  then show ?case by (simp add: forEach_snoc IH step)
qed

lemma adjustRow_loop:
  "n \<le> nrows M \<Longrightarrow>
   forEach (adjustRow f t pc (ncols M)) [0..<n] M =
     (None, M\<lparr>cells := (\<lambda>a b. if a < n \<and> b < ncols M then cells M a b * (f t / f (pc ! a))
                               else cells M a b)\<rparr>)"
proof (induction n)
  case 0
  then show ?case by simp
next
  case (Suc n)
  let ?M = "M\<lparr>cells := (\<lambda>a b. if a < n \<and> b < ncols M then cells M a b * (f t / f (pc ! a))
                               else cells M a b)\<rparr>"
  have IH: "forEach (adjustRow f t pc (ncols M)) [0..<n] M = (None, ?M)" using Suc by simp
  have step: "adjustRow f t pc (ncols M) n ?M =
      (None, ?M\<lparr>cells := (\<lambda>a b. if a = n \<and> b < ncols M then cells ?M a b * (f t / f (pc ! n))
                                else cells ?M a b)\<rparr>)"
    using Suc.prems adjustCell_loop[of n ?M "ncols M" "f t / f (pc ! n)"]
    by (simp add: adjustRow_def)
  have "?M\<lparr>cells := (\<lambda>a b. if a = n \<and> b < ncols M then cells ?M a b * (f t / f (pc ! n))
                                else cells ?M a b)\<rparr> =
        M\<lparr>cells := (\<lambda>a b. if a < Suc n \<and> b < ncols M then cells M a b * (f t / f (pc ! a))
                               else cells M a b)\<rparr>"
    by (auto simp: fun_eq_iff less_Suc_eq)
  then show ?case by (simp add: forEach_snoc IH step)
qed


section \<open>Outcomes of populationAdjust\<close>

lemma populationAdjust_value:
  fixes M :: "('a::{times,inverse}) Dense"
  assumes "countPopulation s dems = (None, (t, cs))" and "nrows M = length dems"
  shows "populationAdjust f s M dems =
           (None, M\<lparr>cells := (\<lambda>i j. if i < nrows M \<and> j < ncols M
                                   then cells M i j * (f t / f (cs ! i)) else cells M i j)\<rparr>)"
  using assms adjustRow_loop[of "nrows M" M f t cs]
  by (simp add: populationAdjust_def Let_def)

text \<open>
  Claim C1, as stated, fails: \<open>populationAdjust\<close> has no check for a zero population
  count and no division-by-zero error. Here the group \<open>''low''\<close> has count 0 and the
  other group 300: the call returns nil, and the first cell of the first row has gone
  from 10 to \<open>10 * (300 / 0)\<close>, which is positive infinity.
\<close>

theorem populationAdjust_zero_count_counterexample:
  "TotalPopulationCount emptyGroup ''low'' 2015 = Inr 0 \<and>
   fst (populationAdjust float64_of_int emptyGroup unadjusted [''low'', ''high'']) = None \<and>
   Dense_At unadjusted 0 0 = Inr (Finite 10) \<and>
   Dense_At (snd (populationAdjust float64_of_int emptyGroup unadjusted [''low'', ''high''])) 0 0 =
     Inr PInf"
  by code_simp

text \<open>
  Claim C1, amended. When the server answers every count query, with \<open>counts\<close>, and the
  matrix has one row per group, \<open>populationAdjust\<close> returns nil and has multiplied every
  cell of row \<open>i\<close> by \<open>float64 totalPop / float64 (counts ! i)\<close>, where \<open>totalPop\<close> is the
  (64-bit) sum of the counts. A zero count is no exception: the quotient is then the
  floating-point quotient by zero.
\<close>

theorem populationAdjust_rescales:
  fixes M :: "('a::{times,inverse}) Dense"
  assumes "map (\<lambda>d. TotalPopulationCount s d 2015) dems = map Inr counts"
    and "nrows M = length dems"
  shows "populationAdjust float64 s M dems =
           (None, M\<lparr>cells := (\<lambda>i j. if i < nrows M \<and> j < ncols M
                then cells M i j * (float64 (foldl (+) 0 counts) / float64 (counts ! i))
                else cells M i j)\<rparr>)"
  using assms by (intro populationAdjust_value countPopulation_counts)

theorem populationAdjust_rescales_witness:
  "map (\<lambda>d. TotalPopulationCount emptyGroup d 2015) [''low'', ''high''] = map Inr [0, 300] \<and>
   fst (populationAdjust float64_of_int emptyGroup unadjusted [''low'', ''high'']) = None \<and>
   Dense_At (snd (populationAdjust float64_of_int emptyGroup unadjusted [''low'', ''high''])) 0 1 =
     Inr PInf \<and>
   Dense_At (snd (populationAdjust float64_of_int emptyGroup unadjusted [''low'', ''high''])) 1 0 =
     Inr (Finite 30)"
proof -
  have h1: "map (\<lambda>d. TotalPopulationCount emptyGroup d 2015) [''low'', ''high''] = map Inr [0, 300]"
    by (simp add: emptyGroup_def)
  have h2: "nrows unadjusted = length [''low'', ''high'']"
    by (simp add: unadjusted_def fromRows_def)
  have r: "float64_of_int (foldl (+) 0 [0, 300]) / float64_of_int ([0, 300] ! 0) = PInf"
    "float64_of_int (foldl (+) 0 [0, 300]) / float64_of_int ([0, 300] ! 1) = Finite 1"
    by code_simp+
  have c: "cells unadjusted 0 1 * PInf = PInf" "cells unadjusted 1 0 * Finite 1 = Finite 30"
    by code_simp+
  have d: "nrows unadjusted = 2" "ncols unadjusted = 2"
    by (simp_all add: unadjusted_def fromRows_def)
  show ?thesis
    using h1 r c by (simp add: populationAdjust_rescales[OF h1 h2] Dense_At_def d)
qed

text \<open>
  Claim C10. When the matrix does not have one row per group, \<open>populationAdjust\<close>
  returns an error and leaves the matrix as it was. The row check comes after the count
  queries: when they all succeed the error is that of the row check, otherwise it is
  the error of the first query that failed.
\<close>

theorem populationAdjust_row_mismatch:
  fixes M :: "('a::{times,inverse}) Dense"
  assumes "nrows M \<noteq> length dems"
  shows "snd (populationAdjust float64 s M dems) = M \<and>
         fst (populationAdjust float64 s M dems) \<noteq> None \<and>
         ((\<forall>d\<in>set dems. \<exists>c. TotalPopulationCount s d 2015 = Inr c) \<longrightarrow>
            fst (populationAdjust float64 s M dems) = Some (EmissionsRows (nrows M) (length dems)))"
proof (intro conjI impI)
  show "snd (populationAdjust float64 s M dems) = M"
    using assms by (simp add: populationAdjust_def split: prod.splits option.splits)
  show "fst (populationAdjust float64 s M dems) \<noteq> None"
    using assms by (simp add: populationAdjust_def split: prod.splits option.splits)
next
  assume "\<forall>d\<in>set dems. \<exists>c. TotalPopulationCount s d 2015 = Inr c"
  then obtain cs where "countPopulation s dems = (None, (foldl (+) 0 cs, cs))"
    using countPopulation_succeeds by blast
  then show "fst (populationAdjust float64 s M dems) = Some (EmissionsRows (nrows M) (length dems))"
    using assms by (simp add: populationAdjust_def)
qed

theorem populationAdjust_row_mismatch_witness:
  "nrows unadjusted \<noteq> length [''low''] \<and>
   populationAdjust float64_of_int scenario unadjusted [''low''] =
     (Some (EmissionsRows 2 1), unadjusted)"
proof -
  have h: "nrows unadjusted \<noteq> length [''low'']"
    by (simp add: unadjusted_def fromRows_def)
  have calls: "\<forall>d\<in>set [''low'']. \<exists>c. TotalPopulationCount scenario d 2015 = Inr c"
    by (simp add: scenario_def)
  have n: "nrows unadjusted = 2" by (simp add: unadjusted_def fromRows_def)
  note facts = populationAdjust_row_mismatch[OF h, of float64_of_int scenario]
  have "snd (populationAdjust float64_of_int scenario unadjusted [''low'']) = unadjusted"
    by (rule facts[THEN conjunct1])
  moreover have "fst (populationAdjust float64_of_int scenario unadjusted [''low'']) =
      Some (EmissionsRows 2 1)"
    using facts[THEN conjunct2, THEN conjunct2, THEN mp, OF calls] by (simp add: n)
  ultimately show ?thesis using h by (simp add: prod_eq_iff)
qed

text \<open>
  Claim C3, as stated, fails: \<open>populationAdjust\<close> takes no year and always asks for the
  counts of 2015. On this server each group counts 50 in 2014, and the counts used are
  100 and 300, those of 2015.
\<close>

theorem populationAdjust_year_counterexample:
  "countPopulation scenario [''low'', ''high''] = (None, (400, [100, 300])) \<and>
   map (\<lambda>dem. TotalPopulationCount scenario dem 2014) [''low'', ''high''] = map Inr [50, 50]"
  by (simp add: countPopulation_def countDem_def scenario_def enumerate_eq_zip upt_conv_Cons)

text \<open>
  Claim C3, amended. The counts \<open>populationAdjust\<close> uses are the server's counts for the
  year 2015: its outcome is the same on a server that answers every year with its 2015
  counts, and when the count loop succeeds its counts are the answers for 2015, group
  by group, and \<open>totalPop\<close> is their sum.
\<close>

theorem populationAdjust_counts_of_2015:
  fixes s :: "('d, 'a::{times,inverse}) Server"
  shows "populationAdjust float64
           (s\<lparr>TotalPopulationCount := (\<lambda>dem yr. TotalPopulationCount s dem 2015)\<rparr>) M dems =
         populationAdjust float64 s M dems \<and>
         (countPopulation s dems = (None, (totalPop, popCounts)) \<longrightarrow>
            map (\<lambda>dem. TotalPopulationCount s dem 2015) dems = map Inr popCounts \<and>
            totalPop = foldl (+) 0 popCounts)"
proof (intro conjI impI)
  have "countDem (s\<lparr>TotalPopulationCount := (\<lambda>dem yr. TotalPopulationCount s dem 2015)\<rparr>) =
        countDem s"
    by (simp add: countDem_def)
  then show "populationAdjust float64
           (s\<lparr>TotalPopulationCount := (\<lambda>dem yr. TotalPopulationCount s dem 2015)\<rparr>) M dems =
         populationAdjust float64 s M dems"
    by (simp add: populationAdjust_def countPopulation_def)
next
  assume a: "countPopulation s dems = (None, (totalPop, popCounts))"
  show "map (\<lambda>dem. TotalPopulationCount s dem 2015) dems = map Inr popCounts"
    using countPopulation_None[OF a] by simp
  show "totalPop = foldl (+) 0 popCounts"
    using countPopulation_None[OF a] by simp
qed

theorem populationAdjust_counts_of_2015_witness:
  "countPopulation scenario [''low'', ''high''] = (None, (400, [100, 300])) \<and>
   map (\<lambda>dem. TotalPopulationCount scenario dem 2015) [''low'', ''high''] = map Inr [100, 300] \<and>
   (400 :: goint) = foldl (+) 0 [100, 300]"
proof -
  have a: "countPopulation scenario [''low'', ''high''] = (None, (400, [100, 300]))"
    by (simp add: countPopulation_def countDem_def scenario_def enumerate_eq_zip upt_conv_Cons)
  note facts = populationAdjust_counts_of_2015[THEN conjunct2, THEN mp, OF a]
  show ?thesis by (intro conjI a facts[THEN conjunct1] facts[THEN conjunct2])
qed

section \<open>The demographic-by-sector matrix\<close>

lemma addToSCC_loop_same_length:
  "forEach (addToSCC c) sccs acc = (r, acc') \<Longrightarrow> length acc' = length acc"
  by (induction sccs arbitrary: acc)
    (auto simp: addToSCC_Cons simp del: forEach.simps(2) split: if_splits)

lemma addIndustry_loop_same_length:
  "forEach (addIndustry m) xs acc = (r, acc') \<Longrightarrow> length acc' = length acc"
proof (induction xs arbitrary: acc)
  case Nil
  then show ?case by simp
next
  case (Cons x xs)
  obtain i c where x: "x = (i, c)" by (cases x)
  obtain r1 acc1 where 1: "addIndustry m (i, c) acc = (r1, acc1)"
    by (cases "addIndustry m (i, c) acc")
  have len1: "length acc1 = length acc"
    using 1 addToSCC_loop_same_length[of c "m ! i" acc r1 acc1]
    by (auto simp: addIndustry_pair split: if_splits)
  show ?case
  proof (cases r1)
    case None
    then have "forEach (addIndustry m) xs acc1 = (r, acc')"
      using Cons.prems x 1 by simp
    then show ?thesis using Cons.IH len1 by simp
  next
    case (Some e)
    then show ?thesis using Cons.prems x 1 len1 by simp
  qed
qed

lemma getConsumptionBySCC_length:
  "getConsumptionBySCC s dem yr = Inr v \<Longrightarrow> length v = length (SCCs s)"
  by (auto simp: getConsumptionBySCC_def aggregateBySCC_def NewVecDense_def
      split: sum.splits prod.splits option.splits if_splits
      dest: addIndustry_loop_same_length)

lemma sumColumn_loop_same_length:
  "forEach (sumColumn emis) xs acc = (r, acc') \<Longrightarrow> length acc' = length acc"
  by (induction xs arbitrary: acc)
    (auto simp: sumColumn_def split: sum.splits prod.splits option.splits)

lemma getEmissionsBySCC_length:
  "getEmissionsBySCC demand s yr loc = Inr v \<Longrightarrow> length v = length (SCCs s)"
  by (auto simp: getEmissionsBySCC_def NewVecDense_def
      split: sum.splits prod.splits option.splits if_splits
      dest: sumColumn_loop_same_length)

lemma setDemAndSCC_value:
  "j < length consumption \<Longrightarrow> j < length emis \<Longrightarrow> g < nrows M \<Longrightarrow> j < ncols M \<Longrightarrow>
   setDemAndSCC consumption emis g j M =
     (None, M\<lparr>cells := (cells M)(g := (cells M g)(j := consumption ! j * emis ! j))\<rparr>)"
  by (simp add: setDemAndSCC_def Vec_At_def Dense_Set_def)

lemma setDemAndSCC_loop:
  "n \<le> length consumption \<Longrightarrow> n \<le> length emis \<Longrightarrow> g < nrows M \<Longrightarrow> n \<le> ncols M \<Longrightarrow>
   forEach (setDemAndSCC consumption emis g) [0..<n] M =
     (None, M\<lparr>cells := (\<lambda>a b. if a = g \<and> b < n then consumption ! b * emis ! b
                               else cells M a b)\<rparr>)"
proof (induction n)
  case 0
  then show ?case by simp
next
  case (Suc n)
  let ?M = "M\<lparr>cells := (\<lambda>a b. if a = g \<and> b < n then consumption ! b * emis ! b
                               else cells M a b)\<rparr>"
  have IH: "forEach (setDemAndSCC consumption emis g) [0..<n] M = (None, ?M)"
    using Suc by simp
  have step: "setDemAndSCC consumption emis g n ?M =
      (None, ?M\<lparr>cells := (cells ?M)(g := (cells ?M g)(n := consumption ! n * emis ! n))\<rparr>)"
    using Suc.prems by (intro setDemAndSCC_value) simp_all
  have "?M\<lparr>cells := (cells ?M)(g := (cells ?M g)(n := consumption ! n * emis ! n))\<rparr> =
        M\<lparr>cells := (\<lambda>a b. if a = g \<and> b < Suc n then consumption ! b * emis ! b
                               else cells M a b)\<rparr>"
    by (auto simp: fun_eq_iff less_Suc_eq)
  then show ?case by (simp add: forEach_snoc IH step)
qed

lemma fillDemRow_value:
  assumes "getConsumptionBySCC s (dems ! g) yr = Inr consumption"
    and "length emis = length (SCCs s)" and "ncols M = length (SCCs s)" and "g < nrows M"
  shows "fillDemRow s dems yr emis g M =
     (None, M\<lparr>cells := (\<lambda>a b. if a = g \<and> b < length (SCCs s) then consumption ! b * emis ! b
                               else cells M a b)\<rparr>)"
  using assms getConsumptionBySCC_length[OF assms(1)]
  by (simp add: fillDemRow_def setDemAndSCC_loop)

lemma fillDemRow_None:
  assumes "fillDemRow s dems yr emis g M = (None, M')"
  shows "\<exists>consumption. getConsumptionBySCC s (dems ! g) yr = Inr consumption"
  using assms by (cases "getConsumptionBySCC s (dems ! g) yr") (simp_all add: fillDemRow_def)

lemma fillDemRow_loop:
  assumes "length emis = length (SCCs s)" and "ncols M = length (SCCs s)"
  shows "n \<le> nrows M \<Longrightarrow> forEach (fillDemRow s dems yr emis) [0..<n] M = (None, M') \<Longrightarrow>
     nrows M' = nrows M \<and> ncols M' = ncols M \<and>
     (\<forall>g<n. \<exists>consumption. getConsumptionBySCC s (dems ! g) yr = Inr consumption \<and>
        (\<forall>j<length (SCCs s). cells M' g j = consumption ! j * emis ! j))"
proof (induction n arbitrary: M')
  case 0
  then show ?case by simp
next
  case (Suc n)
  obtain r M1 where 1: "forEach (fillDemRow s dems yr emis) [0..<n] M = (r, M1)"
    by (cases "forEach (fillDemRow s dems yr emis) [0..<n] M")
  have r: "r = None" and 2: "fillDemRow s dems yr emis n M1 = (None, M')"
    using Suc.prems(2) 1 by (auto simp: forEach_snoc split: option.splits)
  have IH: "nrows M1 = nrows M \<and> ncols M1 = ncols M \<and>
     (\<forall>g<n. \<exists>consumption. getConsumptionBySCC s (dems ! g) yr = Inr consumption \<and>
        (\<forall>j<length (SCCs s). cells M1 g j = consumption ! j * emis ! j))"
    using Suc.prems(1) 1 r by (intro Suc.IH) simp_all
  obtain consumption where c: "getConsumptionBySCC s (dems ! n) yr = Inr consumption"
    using fillDemRow_None[OF 2] by blast
  have M': "M' = M1\<lparr>cells := (\<lambda>a b. if a = n \<and> b < length (SCCs s)
                               then consumption ! b * emis ! b else cells M1 a b)\<rparr>"
    using fillDemRow_value[OF c assms(1), of M1] 2 IH assms(2) Suc.prems(1) by simp
  show ?case
  proof (intro conjI allI impI)
    show "nrows M' = nrows M" "ncols M' = ncols M" using M' IH by simp_all
    fix g assume g: "g < Suc n"
    show "\<exists>consumption. getConsumptionBySCC s (dems ! g) yr = Inr consumption \<and>
        (\<forall>j<length (SCCs s). cells M' g j = consumption ! j * emis ! j)"
    proof (cases "g = n")
      case True
      then show ?thesis using c M' by auto
    next
      case False
      then have "g < n" using g by simp
      then obtain c' where "getConsumptionBySCC s (dems ! g) yr = Inr c'"
        "\<forall>j<length (SCCs s). cells M1 g j = c' ! j * emis ! j"
        using IH by blast
      then show ?thesis using False M' by auto
    qed
  qed
qed


lemma getEmissionsBySCC_nonempty:
  "getEmissionsBySCC demand s yr loc = Inr v \<Longrightarrow> SCCs s \<noteq> []"
  by (auto simp: getEmissionsBySCC_def NewVecDense_def
      split: sum.splits prod.splits option.splits if_splits)

lemma fillDemRow_loop_succeeds:
  assumes "length emis = length (SCCs s)" and "ncols M = length (SCCs s)"
  shows "n \<le> nrows M \<Longrightarrow>
     \<forall>g<n. \<exists>consumption. getConsumptionBySCC s (dems ! g) yr = Inr consumption \<Longrightarrow>
     \<exists>M'. forEach (fillDemRow s dems yr emis) [0..<n] M = (None, M') \<and>
          nrows M' = nrows M \<and> ncols M' = ncols M"
proof (induction n)
  case 0
  then show ?case by simp
next
  case (Suc n)
  then obtain M1 where 1: "forEach (fillDemRow s dems yr emis) [0..<n] M = (None, M1)"
    "nrows M1 = nrows M" "ncols M1 = ncols M"
    by auto
  obtain consumption where c: "getConsumptionBySCC s (dems ! n) yr = Inr consumption"
    using Suc.prems(2) by blast
  have "fillDemRow s dems yr emis n M1 =
     (None, M1\<lparr>cells := (\<lambda>a b. if a = n \<and> b < length (SCCs s) then consumption ! b * emis ! b
                               else cells M1 a b)\<rparr>)"
    using 1 assms Suc.prems(1) by (intro fillDemRow_value[OF c]) simp_all
  then show ?case using 1 by (simp add: forEach_snoc)
qed

text \<open>
  Claim C6. Whenever \<open>demAndEmissions\<close> returns a matrix, the list of groups is not
  empty, the matrix has one row per group and one column per sector, and the cell of
  group \<open>g\<close> and sector \<open>j\<close> is the product of entry \<open>j\<close> of the group's consumption by
  sector and entry \<open>j\<close> of the emissions by sector. It does return one, with the sector
  list, for every non-empty list of groups for which the emissions by sector and each
  group's consumption by sector are obtained.
\<close>

theorem demAndEmissions_matrix:
  fixes s :: "('d, 'a::{zero,plus,times}) Server"
  shows "(dems \<noteq> [] \<and> (\<exists>emis. getEmissionsBySCC demand s yr loc = Inr emis) \<and>
          (\<forall>g<length dems. \<exists>consumption. getConsumptionBySCC s (dems ! g) yr = Inr consumption) \<longrightarrow>
            (\<exists>M'. demAndEmissions s demand dems yr loc = Inr (M', SCCs s))) \<and>
         (demAndEmissions s demand dems yr loc = Inr (M, sccs) \<longrightarrow>
            dems \<noteq> [] \<and> nrows M = length dems \<and> ncols M = length (SCCs s) \<and> sccs = SCCs s \<and>
            (\<exists>emis. getEmissionsBySCC demand s yr loc = Inr emis \<and>
               (\<forall>g<length dems. \<exists>consumption.
                  getConsumptionBySCC s (dems ! g) yr = Inr consumption \<and>
                  (\<forall>j<length (SCCs s). Dense_At M g j = Inr (consumption ! j * emis ! j)))))"
proof (intro conjI impI)
  assume a: "dems \<noteq> [] \<and> (\<exists>emis. getEmissionsBySCC demand s yr loc = Inr emis) \<and>
          (\<forall>g<length dems. \<exists>consumption. getConsumptionBySCC s (dems ! g) yr = Inr consumption)"
  then obtain emis where emis: "getEmissionsBySCC demand s yr loc = Inr emis" by blast
  let ?M0 = "\<lparr>nrows = length dems, ncols = length (SCCs s), cells = (\<lambda>i j. 0::'a)\<rparr>"
  have new: "NewDense (length dems) (length (SCCs s)) = Inr ?M0"
    using a getEmissionsBySCC_nonempty[OF emis] by (simp add: NewDense_def)
  have "\<exists>M'. forEach (fillDemRow s dems yr emis) [0..<length dems] ?M0 = (None, M') \<and>
          nrows M' = nrows ?M0 \<and> ncols M' = ncols ?M0"
    using a by (intro fillDemRow_loop_succeeds getEmissionsBySCC_length[OF emis]) simp_all
  then show "\<exists>M'. demAndEmissions s demand dems yr loc = Inr (M', SCCs s)"
    by (auto simp: demAndEmissions_def emis new)
next
  assume r: "demAndEmissions s demand dems yr loc = Inr (M, sccs)"
  then obtain emis where emis: "getEmissionsBySCC demand s yr loc = Inr emis"
    by (cases "getEmissionsBySCC demand s yr loc") (simp_all add: demAndEmissions_def)
  let ?M0 = "\<lparr>nrows = length dems, ncols = length (SCCs s), cells = (\<lambda>i j. 0::'a)\<rparr>"
  have ne: "dems \<noteq> []"
    using r by (auto simp: demAndEmissions_def emis NewDense_def)
  have new: "NewDense (length dems) (length (SCCs s)) = Inr ?M0"
    using ne getEmissionsBySCC_nonempty[OF emis] by (simp add: NewDense_def)
  have loop: "forEach (fillDemRow s dems yr emis) [0..<length dems] ?M0 = (None, M)"
    and sccs: "sccs = SCCs s"
    using r by (auto simp: demAndEmissions_def emis new split: prod.splits option.splits)
  have P: "nrows M = nrows ?M0 \<and> ncols M = ncols ?M0 \<and>
     (\<forall>g<length dems. \<exists>consumption. getConsumptionBySCC s (dems ! g) yr = Inr consumption \<and>
        (\<forall>j<length (SCCs s). cells M g j = consumption ! j * emis ! j))"
    using loop by (intro fillDemRow_loop getEmissionsBySCC_length[OF emis]) simp_all
  show "dems \<noteq> []" by (rule ne)
  show "nrows M = length dems" "ncols M = length (SCCs s)" using P by simp_all
  show "sccs = SCCs s" by (rule sccs)
  show "\<exists>emis. getEmissionsBySCC demand s yr loc = Inr emis \<and>
               (\<forall>g<length dems. \<exists>consumption.
                  getConsumptionBySCC s (dems ! g) yr = Inr consumption \<and>
                  (\<forall>j<length (SCCs s). Dense_At M g j = Inr (consumption ! j * emis ! j)))"
    using P emis by (auto simp: Dense_At_def)
qed


theorem demAndEmissions_matrix_witness:
  "\<exists>M. demAndEmissions scenario [] [''low'', ''high''] 2015 0 = Inr (M, [''2101'', ''2102'']) \<and>
       nrows M = 2 \<and> ncols M = 2 \<and>
       Dense_At M 0 0 = Inr (Finite 10) \<and> Dense_At M 0 1 = Inr (Finite 20) \<and>
       Dense_At M 1 0 = Inr (Finite 30) \<and> Dense_At M 1 1 = Inr (Finite 20)"
proof -
  let ?dems = "[''low'', ''high'']"
  have e: "getEmissionsBySCC [] scenario 2015 0 = Inr [Finite 10, Finite 20]"
    by code_simp
  have c: "getConsumptionBySCC scenario (?dems ! 0) 2015 = Inr [Finite 1, Finite 1]"
    "getConsumptionBySCC scenario (?dems ! 1) 2015 = Inr [Finite 3, Finite 1]"
    by code_simp+
  have sccs: "SCCs scenario = [''2101'', ''2102'']" by (simp add: scenario_def)
  have h: "?dems \<noteq> [] \<and> (\<exists>emis. getEmissionsBySCC [] scenario 2015 0 = Inr emis) \<and>
     (\<forall>g<length ?dems. \<exists>consumption. getConsumptionBySCC scenario (?dems ! g) 2015 = Inr consumption)"
    using e c by (simp add: All_less_Suc)
  from demAndEmissions_matrix[THEN conjunct1, THEN mp, OF h] obtain M
    where M: "demAndEmissions scenario [] ?dems 2015 0 = Inr (M, SCCs scenario)" ..
  note P = demAndEmissions_matrix[THEN conjunct2, THEN mp, OF M]
  have dims: "nrows M = 2" "ncols M = 2" using P by (simp_all add: sccs)
  have cells: "\<forall>g<length ?dems. \<exists>consumption.
       getConsumptionBySCC scenario (?dems ! g) 2015 = Inr consumption \<and>
       (\<forall>j<length (SCCs scenario). Dense_At M g j = Inr (consumption ! j * [Finite 10, Finite 20] ! j))"
    using P e by auto
  have p: "Finite 1 * Finite 10 = Finite 10" "Finite 1 * Finite 20 = Finite 20"
    "Finite 3 * Finite 10 = Finite 30"
    by (simp_all add: times_f64_def)
  have "Dense_At M 0 0 = Inr (Finite 10)" "Dense_At M 0 1 = Inr (Finite 20)"
    "Dense_At M 1 0 = Inr (Finite 30)" "Dense_At M 1 1 = Inr (Finite 20)"
    using cells c p by (auto simp: sccs All_less_Suc)
  then show ?thesis using M dims by (auto simp: sccs)
qed

section \<open>The result of getExposureByPopulation\<close>

lemma getExposureByPopulation_nil:
  "getExposureByPopulation s yr loc demand \<noteq> Inr (Some exposureByPop)"
  by (simp add: getExposureByPopulation_def split: sum.splits prod.splits)

text \<open>
  Claim C2, at its own scenario: two grid cells with concentrations 5 and 10, group
  \<open>''A''\<close> with populations 100 and 200, group \<open>''B''\<close> with 50 and 50. The local map
  \<open>exposureByPop\<close> ends with the totals 2500 for \<open>''A''\<close> and 750 for \<open>''B''\<close>, each the
  sum over the cells of population times concentration, but the function does not
  return it: its result is the nil pointer, here as on every other successful run.
\<close>

theorem getExposureByPopulation_scenario:
  "Concentrations scenario [] 2015 0 = (Some [Finite 5, Finite 10], None) \<and>
   PopulationIncidence scenario 2015 ''A'' = Inr [Finite 100, Finite 200] \<and>
   PopulationIncidence scenario 2015 ''B'' = Inr [Finite 50, Finite 50] \<and>
   getExposureByPopulation scenario 2015 0 [] = Inr None \<and>
   (case exposureMaps scenario 2015 0 [] of
      Inl err \<Rightarrow> False
    | Inr (popTotals, exposureByPop) \<Rightarrow>
        exposureByPop ''A'' = Some (Finite 2500) \<and> exposureByPop ''B'' = Some (Finite 750))"
proof -
  have maps: "(case exposureMaps scenario 2015 0 [] of
      Inl err \<Rightarrow> False
    | Inr (popTotals, exposureByPop) \<Rightarrow>
        exposureByPop ''A'' = Some (Finite 2500) \<and> exposureByPop ''B'' = Some (Finite 750))"
    by code_simp
  then have "getExposureByPopulation scenario 2015 0 [] = Inr None"
    by (simp add: getExposureByPopulation_def split: sum.splits prod.splits)
  moreover have "Concentrations scenario [] 2015 0 = (Some [Finite 5, Finite 10], None)"
    "PopulationIncidence scenario 2015 ''A'' = Inr [Finite 100, Finite 200]"
    "PopulationIncidence scenario 2015 ''B'' = Inr [Finite 50, Finite 50]"
    by (simp_all add: scenario_def)
  ultimately show ?thesis using maps by (intro conjI)
qed

section \<open>Exact arithmetic\<close>

text \<open>
  The two lemmas of this section are about cell types whose addition is associative and
  commutative and whose multiplication distributes over it. binary64 is no such type:
  its operations round, so what is proved here holds of the program up to rounding only.
\<close>

lemma sum_list_add_at:
  fixes acc :: "('a::comm_monoid_add) list"
  shows "k < length acc \<Longrightarrow> sum_list (acc[k := acc ! k + x]) = sum_list acc + x"
proof (induction acc arbitrary: k)
  case Nil
  then show ?case by simp
next
  case (Cons a acc)
  then show ?case by (cases k) (simp_all add: ac_simps)
qed

lemma aggregateBySCC_sum_exact:
  fixes vals :: "('a::comm_monoid_add) list"
  assumes "length vals \<le> length m"
    and "\<forall>i<length vals. \<exists>k. m ! i = [k] \<and> 0 \<le> k \<and> k < int n"
  shows "\<exists>out. aggregateBySCC m n vals = (None, out) \<and> length out = n \<and>
           sum_list out = sum_list vals"
  unfolding aggregateBySCC_def using assms
proof (induction vals rule: rev_induct)
  case Nil
  have "sum_list (replicate n (0::'a)) = 0" by (induction n) simp_all
  then show ?case by simp
next
  case (snoc x xs)
  have "\<exists>out. forEach (addIndustry m) (enumerate 0 xs) (replicate n 0) = (None, out) \<and>
          length out = n \<and> sum_list out = sum_list xs"
  proof (rule snoc.IH)
    show "length xs \<le> length m" using snoc.prems(1) by simp
    show "\<forall>i<length xs. \<exists>k. m ! i = [k] \<and> 0 \<le> k \<and> k < int n"
      using snoc.prems(2) by (simp add: less_Suc_eq)
  qed
  then obtain acc where acc: "forEach (addIndustry m) (enumerate 0 xs) (replicate n 0) = (None, acc)"
    "length acc = n" "sum_list acc = sum_list xs"
    by blast
  obtain k where k: "m ! length xs = [k]" "0 \<le> k" "k < int n"
    using snoc.prems(2) by auto
  have lt: "length xs < length m" using snoc.prems(1) by simp
  have step: "addIndustry m (length xs, x) acc = (None, acc[nat k := acc ! nat k + x])"
    using lt k acc(2) by (simp add: addIndustry_pair addToSCC_Cons del: forEach.simps(2))
  have "sum_list (acc[nat k := acc ! nat k + x]) = sum_list acc + x"
    using k acc(2) by (intro sum_list_add_at) simp
  then show ?case
    using acc step by (simp add: enumerate_snoc forEach_snoc)
qed


lemma forEach_map_sim:
  assumes "\<And>x s. x \<in> set xs \<Longrightarrow> g (f x) (h s) = (case b x s of (r, s') \<Rightarrow> (r, h s'))"
  shows "forEach g (map f xs) (h s) = (case forEach b xs s of (r, s') \<Rightarrow> (r, h s'))"
  using assms
proof (induction xs arbitrary: s)
  case Nil
  then show ?case by simp
next
  case (Cons x xs)
  have step: "g (f x) (h s) = (case b x s of (r, s') \<Rightarrow> (r, h s'))"
    using Cons.prems by simp
  have IH: "\<And>s. forEach g (map f xs) (h s) = (case forEach b xs s of (r, s') \<Rightarrow> (r, h s'))"
    using Cons.prems by (intro Cons.IH) simp
  show ?case
    by (cases "b x s") (auto simp: step IH split: option.splits)
qed

lemma exposeCell_scaled:
  fixes k :: "'a::comm_semiring_0"
  shows "exposeCell grids g (k * c) p (t, (\<lambda>q. map_option ((*) k) (e q))) =
         (case exposeCell grids g c p (t, e) of
            (r, (t', e')) \<Rightarrow> (r, (t', (\<lambda>q. map_option ((*) k) (e' q)))))"
proof -
  have "getOrZero (\<lambda>q. map_option ((*) k) (e q)) p = k * getOrZero e p"
    by (simp add: getOrZero_def split: option.splits)
  then show ?thesis
    by (auto simp: exposeCell_def Let_def fun_eq_iff algebra_simps)
qed

lemma accumulateExposure_scaled_exact:
  fixes k :: "'a::comm_semiring_0"
  shows "accumulateExposure (map ((*) k) conc) popNames grids totals =
         (case accumulateExposure conc popNames grids totals of
            (r, (t, e)) \<Rightarrow> (r, (t, (\<lambda>q. map_option ((*) k) (e q)))))"
proof -
  let ?h = "\<lambda>(t, e). (t, (\<lambda>q. map_option ((*) k) (e q)))"
  let ?body = "\<lambda>(gridIdx, concentrationAmt).
                forEach (exposeCell grids gridIdx concentrationAmt) popNames"
  have inner: "\<And>g c st. forEach (exposeCell grids g (k * c)) popNames (?h st) =
        (case forEach (exposeCell grids g c) popNames st of (r, s') \<Rightarrow> (r, ?h s'))"
  proof -
    fix g c st
    have "forEach (exposeCell grids g (k * c)) (map id popNames) (?h st) =
        (case forEach (exposeCell grids g c) popNames st of (r, s') \<Rightarrow> (r, ?h s'))"
    proof (rule forEach_map_sim)
      fix p :: string and s :: "(string \<rightharpoonup> 'a) \<times> (string \<rightharpoonup> 'a)"
      obtain t e where s: "s = (t, e)" by (cases s)
      show "exposeCell grids g (k * c) (id p) (?h s) =
            (case exposeCell grids g c p s of (r, s') \<Rightarrow> (r, ?h s'))"
        by (simp add: s exposeCell_scaled split: prod.splits)
    qed
    then show "forEach (exposeCell grids g (k * c)) popNames (?h st) =
        (case forEach (exposeCell grids g c) popNames st of (r, s') \<Rightarrow> (r, ?h s'))"
      by simp
  qed
  have en: "enumerate 0 (map ((*) k) conc) = map (\<lambda>(i, c). (i, k * c)) (enumerate 0 conc)"
    by (simp add: enumerate_eq_zip zip_map2)
  have "forEach ?body (map (\<lambda>(i, c). (i, k * c)) (enumerate 0 conc)) (?h (totals, Map.empty)) =
        (case forEach ?body (enumerate 0 conc) (totals, Map.empty) of (r, s') \<Rightarrow> (r, ?h s'))"
  proof (rule forEach_map_sim)
    fix x :: "nat \<times> 'a" and s :: "(string \<rightharpoonup> 'a) \<times> (string \<rightharpoonup> 'a)"
    obtain i c where x: "x = (i, c)" by (cases x)
    show "?body (case x of (i, c) \<Rightarrow> (i, k * c)) (?h s) =
          (case ?body x s of (r, s') \<Rightarrow> (r, ?h s'))"
      using inner[of i c s] by (simp add: x)
  qed
  then show ?thesis
    by (simp add: accumulateExposure_def en split: prod.splits)
qed

end
